theory Spec2Isabelle
  imports Complex_Main
begin

section \<open>JavaScript strings\<close>

text \<open>
  A JavaScript string is modelled as a \<^typ>\<open>string\<close>, one \<^typ>\<open>char\<close> per code unit.
  Header values and URL paths hold code units below 256 only, so nothing is lost.
  The two characters of a route string that cannot be written inside a HOL string
  literal are named here.
\<close>

definition bslash :: char where
  "bslash = CHR 0x5C"

definition numId :: string where
  \<comment> \<open>the three characters backslash, d, plus: the marker of a numeric id in a route string\<close>
  "numId = [bslash, CHR ''d'', CHR ''+'']"

definition startsWith :: "string \<Rightarrow> string \<Rightarrow> bool" where
  \<comment> \<open>\<open>s.startsWith(p)\<close>\<close>
  "startsWith s p = (take (length p) s = p)"

fun includesStr :: "string \<Rightarrow> string \<Rightarrow> bool" where
  \<comment> \<open>\<open>s.includes(p)\<close>: \<open>p\<close> occurs somewhere in \<open>s\<close>\<close>
  "includesStr [] p = (p = [])"
| "includesStr (c # cs) p = (startsWith (c # cs) p \<or> includesStr cs p)"

fun replaceFirst :: "string \<Rightarrow> string \<Rightarrow> string \<Rightarrow> string" where
  \<comment> \<open>\<open>s.replace(p, r)\<close> with a string pattern: the first occurrence only\<close>
  "replaceFirst [] p r = (if p = [] then r else [])"
| "replaceFirst (c # cs) p r =
     (if startsWith (c # cs) p then r @ drop (length p) (c # cs)
      else c # replaceFirst cs p r)"

fun splitAcc :: "char \<Rightarrow> string \<Rightarrow> string \<Rightarrow> string list" where
  \<comment> \<open>the pieces of a string between the occurrences of a separator;
      the second argument is the piece being read, reversed\<close>
  "splitAcc sep cur [] = [rev cur]"
| "splitAcc sep cur (c # cs) =
     (if c = sep then rev cur # splitAcc sep [] cs else splitAcc sep (c # cur) cs)"

definition splitOn :: "string \<Rightarrow> char \<Rightarrow> string list" where
  \<comment> \<open>\<open>s.split(sep)\<close> with a separator of one character: never an empty array\<close>
  "splitOn s sep = splitAcc sep [] s"

definition isSpace :: "char \<Rightarrow> bool" where
  \<comment> \<open>the white space and line terminators of ECMAScript that are below 256\<close>
  "isSpace c = (c \<in> {CHR 0x09, CHR 0x0A, CHR 0x0B, CHR 0x0C, CHR 0x0D, CHR 0x20, CHR 0xA0})"

definition trim :: "string \<Rightarrow> string" where
  \<comment> \<open>\<open>s.trim()\<close>\<close>
  "trim s = rev (dropWhile isSpace (rev (dropWhile isSpace s)))"

definition isDigit :: "char \<Rightarrow> bool" where
  \<comment> \<open>the class \<open>\d\<close> of a RegExp: the ten ASCII digits\<close>
  "isDigit c = (c \<in> set ''0123456789'')"

section \<open>The route matcher of \<open>api.handleRequest\<close>\<close>

text \<open>
  The table of protected routes, as the source lists it: each entry is a method, a
  space and a path, where a path may hold the marker \<^term>\<open>numId\<close>.
\<close>

definition protectedRoutes :: "string list" where
  "protectedRoutes =
   [''POST /settings'',
    ''POST /catalogs'',
    ''PUT /catalogs'',
    ''DELETE /catalogs'',
    ''POST /catalogs/reorder'',
    ''POST /catalogs/migrate'',
    ''PUT /catalogs/'' @ numId @ ''/toggle_privacy'',
    ''POST /config'',
    ''POST /config/reorder'',
    ''DELETE /config/all'',
    ''PUT /config/'' @ numId,
    ''DELETE /config/'' @ numId,
    ''PUT /config/'' @ numId @ ''/toggle_privacy'',
    ''PUT /pending/'' @ numId,
    ''DELETE /pending/'' @ numId,
    ''POST /config/import'',
    ''GET /config/export'',
    ''GET /pending'',
    ''GET /catalogs/export'',
    ''POST /catalogs/import'',
    ''GET /private'']"

text \<open>
  The regular expressions the matcher builds hold three kinds of item only: an ordinary
  character, an escaped character (the slash), and \<open>\d+\<close>. They are parsed into
  tokens, and \<open>regex.test\<close> of the expression between \<open>^\<close> and \<open>$\<close> is the
  backtracking search \<open>test\<close> below.
\<close>

datatype tok = Lit char | Digits

fun escapeSlashes :: "string \<Rightarrow> string" where
  \<comment> \<open>\<open>routePath.replace(/\//g, '\\/')\<close>: a backslash before every slash. The second
      \<open>replace\<close> of the source puts \<open>\d+\<close> where \<open>\d+\<close> was and changes nothing.\<close>
  "escapeSlashes [] = []"
| "escapeSlashes (c # cs) =
     (if c = CHR ''/'' then bslash # CHR ''/'' # escapeSlashes cs else c # escapeSlashes cs)"

fun regexSource :: "string \<Rightarrow> tok list" where
  \<comment> \<open>the items of a RegExp source: \<open>\d+\<close>, an escaped character, an ordinary character\<close>
  "regexSource [] = []"
| "regexSource [c] = [Lit c]"
| "regexSource [c, d] = (if c = bslash then [Lit d] else [Lit c, Lit d])"
| "regexSource (c # d # p # cs) =
     (if c = bslash \<and> d = CHR ''d'' \<and> p = CHR ''+'' then Digits # regexSource cs
      else if c = bslash then Lit d # regexSource (p # cs)
      else Lit c # regexSource (d # p # cs))"

fun test :: "tok list \<Rightarrow> string \<Rightarrow> bool" where
  \<comment> \<open>\<open>new RegExp('^' + source + '$').test(path)\<close>\<close>
  "test [] s = (s = [])"
| "test (t # ts) [] = False"
| "test (Lit c # ts) (x # xs) = (x = c \<and> test ts xs)"
| "test (Digits # ts) (x # xs) = (isDigit x \<and> (test ts xs \<or> test (Digits # ts) xs))"

definition routeMatches :: "string \<Rightarrow> string \<Rightarrow> string \<Rightarrow> bool" where
  \<comment> \<open>the callback given to \<open>protectedRoutes.some\<close>. Every entry of the table has a
      method and a path; the last case is an entry without a path, where the source
      would raise, and no entry reaches it.\<close>
  "routeMatches method path route =
     (case splitOn route CHR '' '' of
        routeMethod # routePath # _ \<Rightarrow>
          if routeMethod \<noteq> method then False
          else if includesStr routePath numId
            then test (regexSource (escapeSlashes routePath)) path
            else routePath = path
      | _ \<Rightarrow> False)"

definition isProtected :: "string \<Rightarrow> string \<Rightarrow> bool" where
  \<comment> \<open>\<open>protectedRoutes.some(route => ...)\<close>\<close>
  "isProtected method path = list_ex (routeMatches method path) protectedRoutes"

section \<open>Values, requests, responses\<close>

text \<open>
  A value read from a JSON body. A number is a real number, as every finite double is:
  the handlers only test numbers for truth and hand them on, and the text of a number
  is the platform's. A missing property is \<open>undefined\<close>, here
  \<^term>\<open>None\<close> at type \<^typ>\<open>'a option\<close>. An object keeps its members in the order of the text;
  where a name is repeated the last one counts, as \<open>JSON.parse\<close> has it.
\<close>

datatype json =
    JNull
  | JBool bool
  | JNum real
  | JStr string
  | JArr "json list"
  | JObj "(string \<times> json) list"

fun getProp :: "json \<Rightarrow> string \<Rightarrow> json option" where
  \<comment> \<open>reading a named property of a value that is not \<open>null\<close>; the names the handlers
      read are no properties of a number, a string, a boolean or an array\<close>
  "getProp (JObj members) name = map_of (rev members) name"
| "getProp _ name = None"

fun truthy :: "json option \<Rightarrow> bool" where
  \<comment> \<open>the test \<open>v ? a : b\<close>\<close>
  "truthy None = False"
| "truthy (Some JNull) = False"
| "truthy (Some (JBool b)) = b"
| "truthy (Some (JNum n)) = (n \<noteq> 0)"
| "truthy (Some (JStr s)) = (s \<noteq> [])"
| "truthy (Some (JArr _)) = True"
| "truthy (Some (JObj _)) = True"

fun strictEq :: "json option \<Rightarrow> string option \<Rightarrow> bool" where
  \<comment> \<open>\<open>v === stored\<close>, where \<open>stored\<close> is what the key-value store returned:
      a string, or \<open>null\<close> (here \<^term>\<open>None\<close>) for a key that is not there\<close>
  "strictEq (Some (JStr s)) (Some t) = (s = t)"
| "strictEq (Some JNull) None = True"
| "strictEq _ _ = False"

record request =
  httpMethod :: string
  pathname :: string
  searchParams :: "string \<rightharpoonup> string"
  headers :: "string \<rightharpoonup> string"
  body :: "string + json"

text \<open>
  \<^term>\<open>headers r name\<close> is \<open>request.headers.get(name)\<close> and \<^term>\<open>searchParams r name\<close> is
  \<open>url.searchParams.get(name)\<close>, with \<^term>\<open>None\<close> for \<open>null\<close>. \<^term>\<open>body r\<close> is what
  \<open>await request.json()\<close> gives: the parsed value, or \<^term>\<open>Inl\<close> of the message of the
  error it throws.
\<close>

datatype content = Stringified json | Plain string | Fixed string

record response =
  status :: nat
  resHeaders :: "(string \<times> string) list"
  content :: content

text \<open>
  \<^term>\<open>Stringified v\<close> is the body \<open>JSON.stringify(v)\<close>, \<^term>\<open>Plain s\<close> the text \<open>s\<close>, and
  \<^term>\<open>Fixed n\<close> a constant text of the source that is not spelled out here, under a name.
  \<^term>\<open>resHeaders\<close> holds the headers the code gives to the response.
\<close>

fun showNat :: "nat \<Rightarrow> string" where
  \<comment> \<open>a non-negative integer inside a template literal: its decimal digits\<close>
  "showNat n =
     (if n < 10 then [''0123456789'' ! n]
      else showNat (n div 10) @ [''0123456789'' ! (n mod 10)])"

declare showNat.simps [simp del]

section \<open>The key-value store\<close>

text \<open>
  A namespace of the hosted key-value store: its entries (a value and the expiry given
  when it was written), the calls made to it, and for each operation and key whether
  the call fails, with the message of the error. A call that fails changes no entry.
  Deleting a key that is not there succeeds.
\<close>

datatype kvCall = Get string | Put string string "nat option" | Delete string

record kvstore =
  entries :: "string \<rightharpoonup> string \<times> nat option"
  calls :: "kvCall list"
  getFails :: "string \<Rightarrow> string option"
  putFails :: "string \<Rightarrow> string option"
  deleteFails :: "string \<Rightarrow> string option"

definition kvGet :: "string \<Rightarrow> kvstore \<Rightarrow> (string + string option) \<times> kvstore" where
  "kvGet key kv =
     (case getFails kv key of
        Some msg \<Rightarrow> (Inl msg, kv\<lparr>calls := calls kv @ [Get key]\<rparr>)
      | None \<Rightarrow> (Inr (map_option fst (entries kv key)), kv\<lparr>calls := calls kv @ [Get key]\<rparr>))"

definition kvPut :: "string \<Rightarrow> string \<Rightarrow> nat option \<Rightarrow> kvstore \<Rightarrow> (string + unit) \<times> kvstore" where
  "kvPut key val ttl kv =
     (case putFails kv key of
        Some msg \<Rightarrow> (Inl msg, kv\<lparr>calls := calls kv @ [Put key val ttl]\<rparr>)
      | None \<Rightarrow> (Inr (), kv\<lparr>entries := (entries kv)(key \<mapsto> (val, ttl)),
                             calls := calls kv @ [Put key val ttl]\<rparr>))"

definition kvDelete :: "string \<Rightarrow> kvstore \<Rightarrow> (string + unit) \<times> kvstore" where
  "kvDelete key kv =
     (case deleteFails kv key of
        Some msg \<Rightarrow> (Inl msg, kv\<lparr>calls := calls kv @ [Delete key]\<rparr>)
      | None \<Rightarrow> (Inr (), kv\<lparr>entries := (entries kv)(key := None),
                             calls := calls kv @ [Delete key]\<rparr>))"

section \<open>The bookmark worker: environment\<close>

text \<open>
  The relational store is seen through the calls the handlers make: a prepared statement
  is its SQL text with the values bound to it, and the store records each batch it is
  given. Whether binding a value or running a batch fails is the store's.
\<close>

datatype stmt = Stmt string "json list"

record d1 =
  batches :: "stmt list list"
  bindFails :: "json \<Rightarrow> string option"
  batchFails :: "stmt list \<Rightarrow> string option"

definition dbBatch :: "stmt list \<Rightarrow> d1 \<Rightarrow> (string + unit) \<times> d1" where
  "dbBatch statements db =
     (case batchFails db statements of
        Some msg \<Rightarrow> (Inl msg, db)
      | None \<Rightarrow> (Inr (), db\<lparr>batches := batches db @ [statements]\<rparr>))"

record env =
  NAV_AUTH :: kvstore
  NAV_DB :: d1
  console :: "string list"

definition destructureNull :: "string \<Rightarrow> string" where
  \<comment> \<open>the message of the TypeError raised by \<open>const { name } = null\<close> (the engine's wording)\<close>
  "destructureNull name =
     ''Cannot destructure property '' @ [CHR 0x27] @ name @ [CHR 0x27] @
     '' of '' @ [CHR 0x27] @ ''(intermediate value)'' @ [CHR 0x27] @ '' as it is null.''"

definition jsonHeader :: "string \<times> string" where
  "jsonHeader = (''Content-Type'', ''application/json'')"

section \<open>\<open>admin.checkAuth\<close>, \<open>admin.handleLogin\<close>, \<open>admin.handleLogout\<close>\<close>

definition parseCookies :: "string \<Rightarrow> (string \<rightharpoonup> string)" where
  \<comment> \<open>the \<open>reduce\<close> over \<open>cookieHeader.split(';')\<close>, written out twice in the source.
      \<open>[key, value] = cookie.trim().split('=')\<close> takes the first two pieces, and
      \<open>value\<close> is \<open>undefined\<close> when there is one piece only. The accumulator is an
      object without properties of its own; a later pair of the same name replaces an
      earlier one.\<close>
  "parseCookies cookieHeader =
     foldl (\<lambda>acc cookie.
              case splitOn (trim cookie) CHR ''='' of
                key # value # _ \<Rightarrow> acc(key \<mapsto> value)
              | [key] \<Rightarrow> acc(key := None)
              | [] \<Rightarrow> acc)
           Map.empty (splitOn cookieHeader CHR '';'')"

definition checkAuth :: "request \<Rightarrow> env \<Rightarrow> bool \<times> env" where
  "checkAuth request env =
     (case headers request ''Cookie'' of
        None \<Rightarrow> (False, env)
      | Some cookieHeader \<Rightarrow>
          if cookieHeader = [] then (False, env)
          else
            (case parseCookies cookieHeader ''sessionId'' of
               None \<Rightarrow> (False, env)
             | Some sessionId \<Rightarrow>
                 if sessionId = [] then (False, env)
                 else
                   (case kvGet (''session:'' @ sessionId) (NAV_AUTH env) of
                      (Inr session, kv) \<Rightarrow> (session = Some ''valid'', env\<lparr>NAV_AUTH := kv\<rparr>)
                    | (Inl msg, kv) \<Rightarrow>
                        (False, env\<lparr>NAV_AUTH := kv,
                                    console := console env @ [''Auth check failed: '' @ msg]\<rparr>))))"

definition loginFailure :: "string \<Rightarrow> nat \<Rightarrow> response" where
  "loginFailure message code =
     \<lparr>status = code, resHeaders = [jsonHeader],
      content = Stringified (JObj [(''success'', JBool False), (''message'', JStr message)])\<rparr>"

definition handleLogin :: "string \<Rightarrow> request \<Rightarrow> env \<Rightarrow> response \<times> env" where
  \<comment> \<open>the first argument is what \<open>crypto.randomUUID()\<close> returns in this call\<close>
  "handleLogin randomUUID request env =
     (case body request of
        Inl msg \<Rightarrow> (loginFailure msg 500, env)
      | Inr b \<Rightarrow>
          if b = JNull then (loginFailure (destructureNull ''username'') 500, env)
          else
          let username = getProp b ''username'';
              password = getProp b ''password'';
              remember = getProp b ''remember''
          in
          (case kvGet ''admin_username'' (NAV_AUTH env) of
             (Inl msg, kv1) \<Rightarrow> (loginFailure msg 500, env\<lparr>NAV_AUTH := kv1\<rparr>)
           | (Inr storedUsername, kv1) \<Rightarrow>
               (case kvGet ''admin_password'' kv1 of
                  (Inl msg, kv2) \<Rightarrow> (loginFailure msg 500, env\<lparr>NAV_AUTH := kv2\<rparr>)
                | (Inr storedPassword, kv2) \<Rightarrow>
                    if strictEq username storedUsername \<and> strictEq password storedPassword
                    then
                      let sessionId = randomUUID;
                          maxAge = (if truthy remember then 30 * 86400 else 86400)
                      in
                      (case kvPut (''session:'' @ sessionId) ''valid'' (Some maxAge) kv2 of
                         (Inl msg, kv3) \<Rightarrow> (loginFailure msg 500, env\<lparr>NAV_AUTH := kv3\<rparr>)
                       | (Inr _, kv3) \<Rightarrow>
                           (\<lparr>status = 200,
                             resHeaders =
                               [jsonHeader,
                                (''Set-Cookie'',
                                 ''sessionId='' @ sessionId @
                                 ''; HttpOnly; Secure; Path=/; Max-Age='' @ showNat maxAge)],
                             content = Stringified
                               (JObj [(''success'', JBool True),
                                      (''message'', JStr ''Login successful'')])\<rparr>,
                            env\<lparr>NAV_AUTH := kv3\<rparr>))
                    else (loginFailure ''Invalid username or password'' 401,
                          env\<lparr>NAV_AUTH := kv2\<rparr>))))"

definition loggedOut :: response where
  "loggedOut =
     \<lparr>status = 200,
      resHeaders =
        [jsonHeader, (''Set-Cookie'', ''sessionId=; HttpOnly; Secure; Path=/; Max-Age=0'')],
      content = Stringified (JObj [(''success'', JBool True), (''message'', JStr ''Logged out'')])\<rparr>"

definition handleLogout :: "request \<Rightarrow> env \<Rightarrow> response \<times> env" where
  "handleLogout request env =
     (case headers request ''Cookie'' of
        None \<Rightarrow> (loggedOut, env)
      | Some cookieHeader \<Rightarrow>
          if cookieHeader = [] then (loggedOut, env)
          else
            (case parseCookies cookieHeader ''sessionId'' of
               None \<Rightarrow> (loggedOut, env)
             | Some sessionId \<Rightarrow>
                 if sessionId = [] then (loggedOut, env)
                 else
                   (case kvDelete (''session:'' @ sessionId) (NAV_AUTH env) of
                      (Inr _, kv) \<Rightarrow> (loggedOut, env\<lparr>NAV_AUTH := kv\<rparr>)
                    | (Inl msg, kv) \<Rightarrow> (loginFailure msg 500, env\<lparr>NAV_AUTH := kv\<rparr>))))"

section \<open>\<open>api.handleRequest\<close> and \<open>api.reorderConfig\<close>\<close>

definition errorResponse :: "string \<Rightarrow> nat \<Rightarrow> response" where
  "errorResponse message code =
     \<lparr>status = code, resHeaders = [jsonHeader],
      content = Stringified (JObj [(''code'', JNum (real code)), (''message'', JStr message)])\<rparr>"

definition handleRequest ::
  "(string \<Rightarrow> request \<Rightarrow> env \<Rightarrow> response \<times> env) \<Rightarrow> request \<Rightarrow> env \<Rightarrow> response \<times> env" where
  \<comment> \<open>the first argument stands for the routing of the \<open>try\<close> block after the gate,
      which calls the handlers of the entities: it is given the path, the request and
      the environment\<close>
  "handleRequest routing request env =
     (let path = replaceFirst (pathname request) ''/api'' [];
          method = httpMethod request
      in if isProtected method path
         then (case checkAuth request env of
                 (isAuthenticated, env') \<Rightarrow>
                   if \<not> isAuthenticated then (errorResponse ''Unauthorized'' 401, env')
                   else routing path request env')
         else routing path request env)"

definition updateSortOrder :: string where
  "updateSortOrder = ''UPDATE sites SET sort_order = ? WHERE id = ?''"

definition reorderFailure :: "string \<Rightarrow> response" where
  "reorderFailure msg = errorResponse (''Failed to reorder configs: '' @ msg) 500"

fun firstBindFailure :: "(json \<Rightarrow> string option) \<Rightarrow> json list \<Rightarrow> string option" where
  \<comment> \<open>the values are bound in the order of the list, and the first failure is thrown\<close>
  "firstBindFailure fails [] = None"
| "firstBindFailure fails (v # vs) =
     (case fails v of Some msg \<Rightarrow> Some msg | None \<Rightarrow> firstBindFailure fails vs)"

definition reorderStatements :: "json list \<Rightarrow> stmt list" where
  \<comment> \<open>\<open>orderedIds.map((id, index) => prepare(...).bind(index + 1, id))\<close>\<close>
  "reorderStatements orderedIds =
     map (\<lambda>(index, id'). Stmt updateSortOrder [JNum (real index + 1), id'])
         (enumerate 0 orderedIds)"

definition reorderConfig :: "request \<Rightarrow> env \<Rightarrow> response \<times> env" where
  "reorderConfig request env =
     (case body request of
        Inl msg \<Rightarrow> (reorderFailure msg, env)
      | Inr b \<Rightarrow>
          if b = JNull then (reorderFailure (destructureNull ''orderedIds''), env)
          else
          (case getProp b ''orderedIds'' of
             Some (JArr orderedIds) \<Rightarrow>
               (case firstBindFailure (bindFails (NAV_DB env)) orderedIds of
                  Some msg \<Rightarrow> (reorderFailure msg, env)
                | None \<Rightarrow>
                    let statements = reorderStatements orderedIds
                    in
                    (case dbBatch statements (NAV_DB env) of
                       (Inl msg, db) \<Rightarrow> (reorderFailure msg, env\<lparr>NAV_DB := db\<rparr>)
                     | (Inr _, db) \<Rightarrow>
                         (\<lparr>status = 200, resHeaders = [jsonHeader],
                           content = Stringified
                             (JObj [(''code'', JNum 200),
                                    (''message'', JStr ''Reordered successfully'')])\<rparr>,
                          env\<lparr>NAV_DB := db\<rparr>)))
           | _ \<Rightarrow> (errorResponse ''Invalid data format, expected an array of IDs.'' 400, env)))"

section \<open>The notes worker: \<open>fetch\<close>\<close>











section \<open>The route matcher in the words of the specification\<close>

text \<open>
  A route path is read as a pattern: the marker \<^term>\<open>numId\<close> is a placeholder, every other
  character stands for itself. A path matches a pattern in full when it is made of one
  piece for each item of the pattern, in order and with nothing before, between or after:
  the character itself for a character, one or more ASCII digits for a placeholder.
\<close>

fun patternOf :: "string \<Rightarrow> tok list" where
  "patternOf [] = []"
| "patternOf (c # cs) =
     (if startsWith (c # cs) numId then Digits # patternOf (drop 2 cs)
      else Lit c # patternOf cs)"

inductive fullMatch :: "tok list \<Rightarrow> string \<Rightarrow> bool" where
  fm_Nil: "fullMatch [] []"
| fm_Lit: "fullMatch ts s \<Longrightarrow> fullMatch (Lit c # ts) (c # s)"
| fm_Digits: "ds \<noteq> [] \<Longrightarrow> list_all isDigit ds \<Longrightarrow> fullMatch ts s
                \<Longrightarrow> fullMatch (Digits # ts) (ds @ s)"

definition specMatches :: "string \<Rightarrow> string \<Rightarrow> string \<Rightarrow> bool" where
  "specMatches method path route =
     (\<exists>routePath. route = method @ '' '' @ routePath \<and> fullMatch (patternOf routePath) path)"

definition specProtected :: "string \<Rightarrow> string \<Rightarrow> bool" where
  "specProtected method path = (\<exists>route \<in> set protectedRoutes. specMatches method path route)"

definition wellFormedRoute :: "string \<Rightarrow> bool" where
  \<comment> \<open>an entry of the table has a method and a path, and its regular expression holds the
      items of its pattern\<close>
  "wellFormedRoute route =
     (case splitOn route CHR '' '' of
        [routeMethod, routePath] \<Rightarrow>
          regexSource (escapeSlashes routePath) = patternOf routePath \<and>
          (includesStr routePath numId \<or> patternOf routePath = map Lit routePath)
      | _ \<Rightarrow> False)"

section \<open>The cookie header in the words of the specification\<close>

text \<open>
  A cookie header is a list of pieces joined by \<open>;\<close>. The name of a piece is its
  trimmed text before the first \<open>=\<close>. Its value is the text between the first and the
  second \<open>=\<close>, which runs to the end when there is no second one; a piece without
  \<open>=\<close> has no value. The value read for a name is that of the last piece of that name.
\<close>

fun joinWith :: "char \<Rightarrow> string list \<Rightarrow> string" where
  "joinWith sep [] = []"
| "joinWith sep [p] = p"
| "joinWith sep (p # q # ps) = p @ sep # joinWith sep (q # ps)"

definition upTo :: "char \<Rightarrow> string \<Rightarrow> string" where
  \<comment> \<open>the text before the first occurrence of a character, all of it when there is none\<close>
  "upTo c s = takeWhile (\<lambda>x. x \<noteq> c) s"

definition pastFirst :: "char \<Rightarrow> string \<Rightarrow> string" where
  \<comment> \<open>the text after the first occurrence of a character\<close>
  "pastFirst c s = tl (dropWhile (\<lambda>x. x \<noteq> c) s)"

definition cookieName :: "string \<Rightarrow> string" where
  "cookieName piece = upTo CHR ''='' (trim piece)"

definition cookieValue :: "string \<Rightarrow> string option" where
  "cookieValue piece =
     (if CHR ''='' \<in> set (trim piece)
      then Some (upTo CHR ''='' (pastFirst CHR ''='' (trim piece)))
      else None)"

definition cookieOf :: "string list \<Rightarrow> string \<Rightarrow> string option" where
  "cookieOf pieces name =
     (case filter (\<lambda>p. cookieName p = name) pieces of
        [] \<Rightarrow> None
      | p # ps \<Rightarrow> cookieValue (last (p # ps)))"

section \<open>Sessions\<close>

definition sessionIdOf :: "request \<Rightarrow> string option" where
  \<comment> \<open>the session identifier that \<open>checkAuth\<close> and \<open>handleLogout\<close> read from a request:
      the \<open>sessionId\<close> cookie of the \<open>Cookie\<close> header, when it is there and not empty\<close>
  "sessionIdOf request =
     (case headers request ''Cookie'' of
        None \<Rightarrow> None
      | Some cookieHeader \<Rightarrow>
          (case parseCookies cookieHeader ''sessionId'' of
             None \<Rightarrow> None
           | Some sessionId \<Rightarrow> if sessionId = [] then None else Some sessionId))"

definition sessionState :: "kvstore \<Rightarrow> string \<Rightarrow> string option" where
  \<comment> \<open>what the store holds for a session identifier: \<^term>\<open>None\<close> when the key is absent\<close>
  "sessionState kv sessionId = map_option fst (entries kv (''session:'' @ sessionId))"

definition readsOnly :: "kvstore \<Rightarrow> kvstore \<Rightarrow> bool" where
  \<comment> \<open>from the first store to the second, no entry has changed and every call made is a read\<close>
  "readsOnly kv kv' =
     (entries kv' = entries kv \<and>
      (\<exists>gets. calls kv' = calls kv @ map Get gets))"

section \<open>Requests that differ in credentials only\<close>


section \<open>Sample inputs\<close>

definition never :: "'a \<Rightarrow> string option" where
  "never x = None"

definition always :: "string \<Rightarrow> 'a \<Rightarrow> string option" where
  "always msg x = Some msg"

definition sampleStore :: kvstore where
  \<comment> \<open>a store with the two secrets and one session, where no call fails\<close>
  "sampleStore =
     \<lparr>entries = [''admin_username'' \<mapsto> (''admin'', None),
                 ''admin_password'' \<mapsto> (''s3cret'', None),
                 ''session:abc'' \<mapsto> (''valid'', Some 86400)],
      calls = [], getFails = never, putFails = never, deleteFails = never\<rparr>"

definition sampleEnv :: env where
  "sampleEnv =
     \<lparr>NAV_AUTH = sampleStore,
      NAV_DB = \<lparr>batches = [], bindFails = never, batchFails = never\<rparr>,
      console = []\<rparr>"

definition brokenEnv :: env where
  \<comment> \<open>the same, but every call of the key-value store fails\<close>
  "brokenEnv =
     sampleEnv\<lparr>NAV_AUTH := sampleStore\<lparr>getFails := always ''KV unavailable'',
                                        putFails := always ''KV unavailable'',
                                        deleteFails := always ''KV unavailable''\<rparr>\<rparr>"

definition unconfiguredEnv :: env where
  \<comment> \<open>a deployment whose key-value namespace holds no key yet\<close>
  "unconfiguredEnv = sampleEnv\<lparr>NAV_AUTH := sampleStore\<lparr>entries := Map.empty\<rparr>\<rparr>"

definition sampleRequest :: "string \<Rightarrow> string \<Rightarrow> string option \<Rightarrow> string + json \<Rightarrow> request" where
  \<comment> \<open>a request with a method, a path, a \<open>Cookie\<close> header or none, and a body\<close>
  "sampleRequest m p cookie b =
     \<lparr>httpMethod = m, pathname = p, searchParams = Map.empty,
      headers = (case cookie of None \<Rightarrow> Map.empty | Some c \<Rightarrow> [''Cookie'' \<mapsto> c]),
      body = b\<rparr>"

definition sampleRouting :: "string \<Rightarrow> request \<Rightarrow> env \<Rightarrow> response \<times> env" where
  \<comment> \<open>a routing whose handler leaves a trace in the relational store\<close>
  "sampleRouting path request env =
     (\<lparr>status = 200, resHeaders = [], content = Plain path\<rparr>,
      env\<lparr>NAV_DB := (NAV_DB env)\<lparr>batches := batches (NAV_DB env) @ [[Stmt path []]]\<rparr>\<rparr>)"




section \<open>The route matcher meets its specification\<close>

lemma digits_test: "ds \<noteq> [] \<Longrightarrow> list_all isDigit ds \<Longrightarrow> test ts s \<Longrightarrow> test (Digits # ts) (ds @ s)"
proof (induction ds)
  case Nil then show ?case by simp
next
  case (Cons d ds)
  show ?case
  proof (cases ds)
    case Nil with Cons.prems show ?thesis by simp
  next
    case (Cons e es)
    with Cons.IH Cons.prems have "test (Digits # ts) (ds @ s)" by simp
    with Cons.prems show ?thesis by simp
  qed
qed

lemma fullMatch_test: "fullMatch ts s \<Longrightarrow> test ts s"
  by (induction rule: fullMatch.induct) (simp_all add: digits_test)

lemma test_fullMatch: "test ts s \<Longrightarrow> fullMatch ts s"
proof (induction ts s rule: test.induct)
  case (1 s) then show ?case by (simp add: fm_Nil)
next
  case (2 t ts) then show ?case by simp
next
  case (3 c ts x xs) then show ?case by (auto intro: fm_Lit)
next
  case (4 ts x xs)
  from "4.prems" have d: "isDigit x" and alt: "test ts xs \<or> test (Digits # ts) xs" by simp_all
  from alt show ?case
  proof
    assume "test ts xs"
    then have "fullMatch ts xs" by (rule "4.IH"(1))
    with d have "fullMatch (Digits # ts) ([x] @ xs)" by (intro fm_Digits) simp_all
    then show ?thesis by simp
  next
    assume "test (Digits # ts) xs"
    then have "fullMatch (Digits # ts) xs" by (rule "4.IH"(2))
    then obtain ds s where xs: "xs = ds @ s" and ne: "ds \<noteq> []" and dd: "list_all isDigit ds"
      and r: "fullMatch ts s"
      by (cases rule: fullMatch.cases) auto
    from d dd r have "fullMatch (Digits # ts) ((x # ds) @ s)" by (intro fm_Digits) simp_all
    with xs show ?thesis by simp
  qed
qed

lemma test_iff_fullMatch: "test ts s = fullMatch ts s"
  using fullMatch_test test_fullMatch by blast

lemma test_map_Lit: "test (map Lit p) s = (s = p)"
  by (induction p arbitrary: s) (case_tac s; auto)+

lemma splitAcc_nosep: "sep \<notin> set a \<Longrightarrow> splitAcc sep cur (a @ sep # b) = (rev cur @ a) # splitAcc sep [] b"
  by (induction a arbitrary: cur) auto

lemma splitAcc_nosep_end: "sep \<notin> set b \<Longrightarrow> splitAcc sep cur b = [rev cur @ b]"
  by (induction b arbitrary: cur) auto

lemma splitOn_two: "sep \<notin> set a \<Longrightarrow> sep \<notin> set b \<Longrightarrow> splitOn (a @ sep # b) sep = [a, b]"
  by (simp add: splitOn_def splitAcc_nosep splitAcc_nosep_end)

lemma splitAcc_not_Nil: "splitAcc sep cur s \<noteq> []"
  by (induction s arbitrary: cur) auto

lemma splitAcc_single: "splitAcc sep cur s = [y] \<Longrightarrow> y = rev cur @ s \<and> sep \<notin> set s"
proof (induction s arbitrary: cur)
  case Nil then show ?case by simp
next
  case (Cons c cs)
  show ?case
  proof (cases "c = sep")
    case True
    with Cons.prems have "splitAcc sep [] cs = []" by simp
    then show ?thesis by (simp add: splitAcc_not_Nil)
  next
    case False
    with Cons.prems have "splitAcc sep (c # cur) cs = [y]" by simp
    from Cons.IH [OF this] False show ?thesis by simp
  qed
qed

lemma splitAcc_pair:
  "splitAcc sep cur s = [x, y] \<Longrightarrow> \<exists>a. s = a @ sep # y \<and> x = rev cur @ a \<and> sep \<notin> set a \<and> sep \<notin> set y"
proof (induction s arbitrary: cur)
  case Nil then show ?case by simp
next
  case (Cons c cs)
  show ?case
  proof (cases "c = sep")
    case True
    with Cons.prems have "x = rev cur" and "splitAcc sep [] cs = [y]" by simp_all
    then have "y = cs" "sep \<notin> set cs" using splitAcc_single [of sep "[]" cs y] by simp_all
    with True \<open>x = rev cur\<close> show ?thesis by (intro exI [of _ "[]"]) simp
  next
    case False
    with Cons.prems have "splitAcc sep (c # cur) cs = [x, y]" by simp
    from Cons.IH [OF this] obtain a where "cs = a @ sep # y" "x = rev (c # cur) @ a"
      "sep \<notin> set a" "sep \<notin> set y" by blast
    with False show ?thesis by (intro exI [of _ "c # a"]) simp
  qed
qed

lemma splitOn_pair:
  "splitOn r sep = [a, b] \<Longrightarrow> r = a @ sep # b \<and> sep \<notin> set a \<and> sep \<notin> set b"
  using splitAcc_pair [of sep "[]" r a b] by (auto simp: splitOn_def)

lemma one_sep_unique:
  assumes "sep \<notin> set a" "sep \<notin> set b" "a @ sep # b = m @ sep # rp"
  shows "m = a \<and> rp = b"
proof -
  have "filter (\<lambda>c. c = sep) (a @ sep # b) = filter (\<lambda>c. c = sep) (m @ sep # rp)"
    using assms(3) by simp
  moreover have "filter (\<lambda>c. c = sep) a = []" "filter (\<lambda>c. c = sep) b = []"
    using assms(1,2) by (auto simp: filter_empty_conv)
  ultimately have "[sep] = filter (\<lambda>c. c = sep) m @ sep # filter (\<lambda>c. c = sep) rp"
    by simp
  then have "filter (\<lambda>c. c = sep) m = []"
    by (metis append_self_conv2 append_is_Nil_conv list.distinct(1) list.inject append_eq_Cons_conv)
  then have "sep \<notin> set m" by (auto simp: filter_empty_conv)
  with assms show ?thesis by (simp add: append_Cons_eq_iff)
qed

lemma route_refines:
  assumes "wellFormedRoute r"
  shows "routeMatches m p r = specMatches m p r"
proof -
  from assms obtain a b where sp: "splitOn r CHR '' '' = [a, b]"
    and re: "regexSource (escapeSlashes b) = patternOf b"
    and lit: "includesStr b numId \<or> patternOf b = map Lit b"
    by (auto simp: wellFormedRoute_def split: list.splits)
  from splitOn_pair [OF sp] have r: "r = a @ CHR '' '' # b"
    and na: "CHR '' '' \<notin> set a" and nb: "CHR '' '' \<notin> set b" by simp_all
  have L: "routeMatches m p r = (a = m \<and> fullMatch (patternOf b) p)"
    using sp re lit test_map_Lit [of b p]
    by (auto simp: routeMatches_def test_iff_fullMatch)
  have R: "specMatches m p r = (a = m \<and> fullMatch (patternOf b) p)"
    unfolding specMatches_def r using one_sep_unique [OF na nb] by auto
  from L R show ?thesis by simp
qed

lemma routes_wellFormed: "list_all wellFormedRoute protectedRoutes"
  by (simp add: protectedRoutes_def wellFormedRoute_def numId_def bslash_def splitOn_def startsWith_def)

lemma isProtected_refines: "isProtected m p = specProtected m p"
  using routes_wellFormed route_refines
  by (auto simp: isProtected_def specProtected_def list_ex_iff list_all_iff)

inductive_simps fullMatch_Nil_iff: "fullMatch [] s"
inductive_simps fullMatch_Lit_iff: "fullMatch (Lit c # ts) s"
inductive_simps fullMatch_Digits_iff: "fullMatch (Digits # ts) s"

lemma numeric_id_segment:
  "routeMatches ''PUT'' path (''PUT /config/'' @ numId) =
     (\<exists>ds. ds \<noteq> [] \<and> list_all isDigit ds \<and> path = ''/config/'' @ ds)"
  by (auto simp: routeMatches_def splitOn_def numId_def bslash_def startsWith_def
       test_iff_fullMatch fullMatch_Nil_iff fullMatch_Lit_iff fullMatch_Digits_iff)

text \<open>
  Claim C1. For every method and path, the matcher classifies the request as protected
  exactly when some entry of the table has that method and a pattern that the path
  matches in full. A numeric placeholder stands for one or more ASCII digits of one
  segment: \<open>/config/42\<close> matches the plain id pattern of \<open>PUT\<close>, \<open>/config/abc\<close>
  matches no entry, \<open>/config/42/toggle_privacy\<close> matches the toggle entry and no other,
  a path with more before or after is not protected, and \<open>GET /config\<close> is public.
\<close>

theorem route_matcher:
  "(isProtected method path \<longleftrightarrow> specProtected method path)
   \<and> (routeMatches ''PUT'' path (''PUT /config/'' @ numId) \<longleftrightarrow>
        (\<exists>ds. ds \<noteq> [] \<and> list_all isDigit ds \<and> path = ''/config/'' @ ds))
   \<and> routeMatches ''PUT'' ''/config/42'' (''PUT /config/'' @ numId)
   \<and> \<not> routeMatches ''PUT'' ''/config/abc'' (''PUT /config/'' @ numId)
   \<and> \<not> isProtected ''PUT'' ''/config/abc''
   \<and> filter (routeMatches ''PUT'' ''/config/42/toggle_privacy'') protectedRoutes
        = [''PUT /config/'' @ numId @ ''/toggle_privacy'']
   \<and> \<not> routeMatches ''PUT'' ''/config/42/toggle_privacy'' (''PUT /config/'' @ numId)
   \<and> \<not> isProtected ''PUT'' ''/config/42/x''
   \<and> \<not> isProtected ''PUT'' ''/v1/config/42''
   \<and> \<not> isProtected ''GET'' ''/config''"
proof -
  have ev: "routeMatches ''PUT'' ''/config/42'' (''PUT /config/'' @ numId)"
    "\<not> routeMatches ''PUT'' ''/config/abc'' (''PUT /config/'' @ numId)"
    "\<not> routeMatches ''PUT'' ''/config/42/toggle_privacy'' (''PUT /config/'' @ numId)"
    by (simp_all add: routeMatches_def splitOn_def numId_def bslash_def startsWith_def isDigit_def)
  have pr: "\<not> isProtected ''PUT'' ''/config/abc''"
    "filter (routeMatches ''PUT'' ''/config/42/toggle_privacy'') protectedRoutes
        = [''PUT /config/'' @ numId @ ''/toggle_privacy'']"
    "\<not> isProtected ''PUT'' ''/config/42/x''"
    "\<not> isProtected ''PUT'' ''/v1/config/42''"
    "\<not> isProtected ''GET'' ''/config''"
    by (simp_all add: isProtected_def protectedRoutes_def routeMatches_def splitOn_def numId_def
          bslash_def startsWith_def isDigit_def)
  show ?thesis
    using isProtected_refines [of "method" "path"] numeric_id_segment [of "path"] ev pr by blast
qed

theorem route_matcher_witness:
  "isProtected ''PUT'' ''/config/42'' \<and> specProtected ''PUT'' ''/config/42''
   \<and> \<not> isProtected ''GET'' ''/config''  \<and> \<not> specProtected ''GET'' ''/config''"
proof -
  have a: "isProtected ''PUT'' ''/config/42''" "\<not> isProtected ''GET'' ''/config''"
    by (simp_all add: isProtected_def protectedRoutes_def routeMatches_def splitOn_def numId_def
          bslash_def startsWith_def isDigit_def)
  with route_matcher [of "''PUT''" "''/config/42''"] route_matcher [of "''GET''" "''/config''"]
  show ?thesis by blast
qed

section \<open>Cookies and the auth check\<close>

lemma parseCookies_empty: "parseCookies [] name = None"
  by (simp add: parseCookies_def splitOn_def trim_def)

lemma sessionIdOf_None_iff:
  "sessionIdOf request = None \<longleftrightarrow>
     (\<forall>h sid. headers request ''Cookie'' = Some h \<longrightarrow> parseCookies h ''sessionId'' = Some sid \<longrightarrow> sid = [])"
  by (auto simp: sessionIdOf_def split: option.splits)

lemma sessionIdOf_Some_iff:
  "sessionIdOf request = Some sid \<longleftrightarrow>
     (\<exists>h. headers request ''Cookie'' = Some h \<and> parseCookies h ''sessionId'' = Some sid \<and> sid \<noteq> [])"
  by (auto simp: sessionIdOf_def split: option.splits)

lemma checkAuth_sessionIdOf:
  "checkAuth request env =
     (case sessionIdOf request of
        None \<Rightarrow> (False, env)
      | Some sid \<Rightarrow>
          (case getFails (NAV_AUTH env) (''session:'' @ sid) of
             None \<Rightarrow> (sessionState (NAV_AUTH env) sid = Some ''valid'',
                      env\<lparr>NAV_AUTH := (NAV_AUTH env)\<lparr>calls := calls (NAV_AUTH env) @ [Get (''session:'' @ sid)]\<rparr>\<rparr>)
           | Some msg \<Rightarrow>
               (False,
                env\<lparr>NAV_AUTH := (NAV_AUTH env)\<lparr>calls := calls (NAV_AUTH env) @ [Get (''session:'' @ sid)]\<rparr>,
                    console := console env @ [''Auth check failed: '' @ msg]\<rparr>)))"
  by (auto simp: checkAuth_def sessionIdOf_def sessionState_def kvGet_def parseCookies_empty
           split: option.splits)

lemma checkAuth_readsOnly:
  "readsOnly (NAV_AUTH env) (NAV_AUTH (snd (checkAuth request env)))"
  "NAV_DB (snd (checkAuth request env)) = NAV_DB env"
proof -
  show "readsOnly (NAV_AUTH env) (NAV_AUTH (snd (checkAuth request env)))"
    unfolding checkAuth_sessionIdOf readsOnly_def
    by (auto split: option.splits intro: exI [of _ "[]"] exI [of _ "[k]" for k])
  show "NAV_DB (snd (checkAuth request env)) = NAV_DB env"
    unfolding checkAuth_sessionIdOf by (simp split: option.splits)
qed

lemmas sample_defs =
  sampleRequest_def sampleEnv_def brokenEnv_def sampleStore_def never_def always_def

lemma other_cookie: "parseCookies ''theme=dark; sessionId=zzz'' ''sessionId'' = Some ''zzz''"
  by (simp add: parseCookies_def splitOn_def trim_def isSpace_def)

text \<open>
  Claim C2. The auth check returns a boolean in every case and never an error. It returns
  true exactly when the request has a \<open>Cookie\<close> header, the header yields a
  \<open>sessionId\<close> cookie that is not empty, and the read of \<open>session:<sessionId>\<close>
  succeeds and gives \<open>valid\<close>. Without the header, without the cookie, with another
  stored value or with a failing read the result is false (the failure is logged). The
  check only reads: no entry of the store changes and every call it makes is a read.
\<close>

theorem checkAuth_decides:
  "(fst (checkAuth request env) \<longleftrightarrow>
      (\<exists>cookieHeader sessionId.
          headers request ''Cookie'' = Some cookieHeader \<and>
          parseCookies cookieHeader ''sessionId'' = Some sessionId \<and> sessionId \<noteq> [] \<and>
          getFails (NAV_AUTH env) (''session:'' @ sessionId) = None \<and>
          sessionState (NAV_AUTH env) sessionId = Some ''valid''))
   \<and> (headers request ''Cookie'' = None \<longrightarrow> \<not> fst (checkAuth request env))
   \<and> (sessionIdOf request = None \<longrightarrow> \<not> fst (checkAuth request env))
   \<and> (\<forall>sessionId. sessionIdOf request = Some sessionId \<and>
          sessionState (NAV_AUTH env) sessionId \<noteq> Some ''valid''
          \<longrightarrow> \<not> fst (checkAuth request env))
   \<and> (\<forall>sessionId msg. sessionIdOf request = Some sessionId \<and>
          getFails (NAV_AUTH env) (''session:'' @ sessionId) = Some msg
          \<longrightarrow> \<not> fst (checkAuth request env) \<and>
              console (snd (checkAuth request env)) = console env @ [''Auth check failed: '' @ msg])
   \<and> readsOnly (NAV_AUTH env) (NAV_AUTH (snd (checkAuth request env)))
   \<and> NAV_DB (snd (checkAuth request env)) = NAV_DB env"
proof -
  have decide: "fst (checkAuth request env) \<longleftrightarrow>
      (\<exists>sessionId. sessionIdOf request = Some sessionId \<and>
          getFails (NAV_AUTH env) (''session:'' @ sessionId) = None \<and>
          sessionState (NAV_AUTH env) sessionId = Some ''valid'')"
    unfolding checkAuth_sessionIdOf by (auto split: option.splits)
  have main: "fst (checkAuth request env) \<longleftrightarrow>
      (\<exists>cookieHeader sessionId.
          headers request ''Cookie'' = Some cookieHeader \<and>
          parseCookies cookieHeader ''sessionId'' = Some sessionId \<and> sessionId \<noteq> [] \<and>
          getFails (NAV_AUTH env) (''session:'' @ sessionId) = None \<and>
          sessionState (NAV_AUTH env) sessionId = Some ''valid'')"
    unfolding decide sessionIdOf_Some_iff by blast
  have noHeader: "headers request ''Cookie'' = None \<longrightarrow> \<not> fst (checkAuth request env)"
    by (simp add: checkAuth_def)
  have noId: "sessionIdOf request = None \<longrightarrow> \<not> fst (checkAuth request env)"
    by (simp add: decide)
  have other: "\<forall>sessionId. sessionIdOf request = Some sessionId \<and>
          sessionState (NAV_AUTH env) sessionId \<noteq> Some ''valid''
          \<longrightarrow> \<not> fst (checkAuth request env)"
    by (auto simp: decide)
  have fails: "\<forall>sessionId msg. sessionIdOf request = Some sessionId \<and>
          getFails (NAV_AUTH env) (''session:'' @ sessionId) = Some msg
          \<longrightarrow> \<not> fst (checkAuth request env) \<and>
              console (snd (checkAuth request env)) = console env @ [''Auth check failed: '' @ msg]"
    unfolding checkAuth_sessionIdOf by simp
  from main noHeader noId other fails checkAuth_readsOnly [where env = env and request = request]
  show ?thesis by blast
qed

lemma sample_cookie: "parseCookies ''sessionId=abc'' ''sessionId'' = Some ''abc''"
  by (simp add: parseCookies_def splitOn_def trim_def isSpace_def)

lemma sample_sessionIdOf:
  "sessionIdOf (sampleRequest m p (Some ''sessionId=abc'') b) = Some ''abc''"
  "sessionIdOf (sampleRequest m p None b) = None"
  by (simp_all add: sessionIdOf_def sampleRequest_def sample_cookie)

theorem checkAuth_decides_witness:
  "fst (checkAuth (sampleRequest ''GET'' ''/api/pending'' (Some ''sessionId=abc'') (Inl [])) sampleEnv)
   \<and> \<not> fst (checkAuth (sampleRequest ''GET'' ''/api/pending'' None (Inl [])) sampleEnv)
   \<and> \<not> fst (checkAuth (sampleRequest ''GET'' ''/api/pending'' (Some ''sessionId=abc'') (Inl [])) brokenEnv)
   \<and> console (snd (checkAuth (sampleRequest ''GET'' ''/api/pending'' (Some ''sessionId=abc'') (Inl [])) brokenEnv))
       = [''Auth check failed: KV unavailable'']
   \<and> \<not> fst (checkAuth
        (sampleRequest ''GET'' ''/api/pending'' (Some ''theme=dark; sessionId=zzz'') (Inl [])) sampleEnv)"
proof -
  let ?r = "sampleRequest ''GET'' ''/api/pending'' (Some ''sessionId=abc'') (Inl [])"
  let ?n = "sampleRequest ''GET'' ''/api/pending'' None (Inl [])"
  let ?z = "sampleRequest ''GET'' ''/api/pending'' (Some ''theme=dark; sessionId=zzz'') (Inl [])"
  have z: "sessionIdOf ?z = Some ''zzz''"
    "sessionState (NAV_AUTH sampleEnv) ''zzz'' \<noteq> Some ''valid''"
    by (simp_all add: sessionIdOf_def sampleRequest_def other_cookie sessionState_def
          sampleEnv_def sampleStore_def)
  have d: "\<not> fst (checkAuth ?z sampleEnv)"
    using checkAuth_decides [of ?z sampleEnv] z by blast
  have h: "headers ?r ''Cookie'' = Some ''sessionId=abc''" "headers ?n ''Cookie'' = None"
    by (simp_all add: sampleRequest_def)
  have s: "getFails (NAV_AUTH sampleEnv) (''session:'' @ ''abc'') = None"
    "sessionState (NAV_AUTH sampleEnv) ''abc'' = Some ''valid''"
    "getFails (NAV_AUTH brokenEnv) (''session:'' @ ''abc'') = Some ''KV unavailable''"
    "console brokenEnv = []"
    by (simp_all add: sampleEnv_def brokenEnv_def sampleStore_def sessionState_def never_def always_def)
  have a: "fst (checkAuth ?r sampleEnv)"
    using checkAuth_decides [of ?r sampleEnv] h(1) sample_cookie s(1,2) by blast
  have b: "\<not> fst (checkAuth ?n sampleEnv)"
    using checkAuth_decides [of ?n sampleEnv] h(2) by blast
  have c: "\<not> fst (checkAuth ?r brokenEnv) \<and>
       console (snd (checkAuth ?r brokenEnv)) = console brokenEnv @ [''Auth check failed: '' @ ''KV unavailable'']"
    using checkAuth_decides [of ?r brokenEnv] sample_sessionIdOf(1) s(3) by blast
  from a b c d s(4) show ?thesis by simp
qed

section \<open>The value of a cookie\<close>

lemma splitOn_single: "sep \<notin> set s \<Longrightarrow> splitOn s sep = [s]"
  by (simp add: splitOn_def splitAcc_nosep_end)

lemma splitOn_first: "sep \<notin> set a \<Longrightarrow> splitOn (a @ sep # b) sep = a # splitOn b sep"
  by (simp add: splitOn_def splitAcc_nosep)

lemma trim_keeps_front:
  assumes "\<not> isSpace c" "\<not> isSpace d"
  shows "trim (c # xs @ d # ys) = c # xs @ d # rev (dropWhile isSpace (rev ys))"
proof -
  have r: "rev (c # xs @ d # ys) = rev ys @ d # (rev xs @ [c])" by simp
  have "dropWhile isSpace (rev (c # xs @ d # ys)) = dropWhile isSpace (rev ys) @ d # (rev xs @ [c])"
    unfolding r using assms(2) by (rule dropWhile_append3)
  with assms(1) show ?thesis by (simp add: trim_def)
qed

lemma parseCookies_one:
  assumes "CHR '';'' \<notin> set h"
  shows "parseCookies h name =
     (case splitOn (trim h) CHR ''='' of
        key # value # _ \<Rightarrow> if key = name then Some value else None
      | _ \<Rightarrow> None)"
  using assms by (simp add: parseCookies_def splitOn_single split: list.splits)

lemma splitOn_join:
  "pieces \<noteq> [] \<Longrightarrow> \<forall>p\<in>set pieces. sep \<notin> set p \<Longrightarrow> splitOn (joinWith sep pieces) sep = pieces"
proof (induction sep pieces rule: joinWith.induct)
  case (1 sep) then show ?case by simp
next
  case (2 sep p) then show ?case by (simp add: splitOn_single)
next
  case (3 sep p q ps)
  then show ?case by (simp add: splitOn_first)
qed

lemma joinWith_splitAcc: "joinWith sep (splitAcc sep cur s) = rev cur @ s"
proof (induction s arbitrary: cur)
  case Nil then show ?case by simp
next
  case (Cons c cs)
  show ?case
  proof (cases "c = sep")
    case True
    obtain x xs where "splitAcc sep [] cs = x # xs"
      using splitAcc_not_Nil [of sep "[]" cs] by (cases "splitAcc sep [] cs") auto
    with Cons.IH [of "[]"] True show ?thesis by simp
  next
    case False
    with Cons.IH [of "c # cur"] show ?thesis by simp
  qed
qed

lemma splitAcc_pieces: "sep \<notin> set cur \<Longrightarrow> \<forall>p\<in>set (splitAcc sep cur s). sep \<notin> set p"
proof (induction s arbitrary: cur)
  case Nil then show ?case by simp
next
  case (Cons c cs)
  show ?case
  proof (cases "c = sep")
    case True
    have "\<forall>p\<in>set (splitAcc sep [] cs). sep \<notin> set p" by (rule Cons.IH) simp
    with True Cons.prems show ?thesis by simp
  next
    case False
    with Cons.prems have "sep \<notin> set (c # cur)" by simp
    from Cons.IH [OF this] False show ?thesis by simp
  qed
qed

lemma header_is_join:
  "splitOn h sep \<noteq> [] \<and> (\<forall>p\<in>set (splitOn h sep). sep \<notin> set p) \<and> joinWith sep (splitOn h sep) = h"
  using splitAcc_pieces [of sep "[]" h]
  by (simp add: splitOn_def splitAcc_not_Nil joinWith_splitAcc)

lemma splitAcc_upTo:
  "splitAcc sep cur s =
     (rev cur @ upTo sep s) #
     (if sep \<in> set s then splitAcc sep [] (pastFirst sep s) else [])"
  by (induction s arbitrary: cur) (auto simp: upTo_def pastFirst_def)

lemma splitOn_upTo:
  "splitOn s sep = upTo sep s # (if sep \<in> set s then splitOn (pastFirst sep s) sep else [])"
  using splitAcc_upTo [of sep "[]" s] by (simp add: splitOn_def)

lemma pair_step:
  "(case splitOn (trim piece) CHR ''='' of
      key # value # _ \<Rightarrow> acc(key \<mapsto> value)
    | [key] \<Rightarrow> acc(key := None)
    | [] \<Rightarrow> acc) = acc(cookieName piece := cookieValue piece)"
proof (cases "CHR ''='' \<in> set (trim piece)")
  case True
  have "splitOn (trim piece) CHR ''='' =
      upTo CHR ''='' (trim piece) # splitOn (pastFirst CHR ''='' (trim piece)) CHR ''=''"
    using splitOn_upTo [of "trim piece" "CHR ''=''"] True by simp
  also have "splitOn (pastFirst CHR ''='' (trim piece)) CHR ''='' =
      upTo CHR ''='' (pastFirst CHR ''='' (trim piece)) #
        (if CHR ''='' \<in> set (pastFirst CHR ''='' (trim piece))
         then splitOn (pastFirst CHR ''='' (pastFirst CHR ''='' (trim piece))) CHR ''='' else [])"
    by (rule splitOn_upTo)
  finally show ?thesis using True by (simp add: cookieName_def cookieValue_def)
next
  case False
  then have "splitOn (trim piece) CHR ''='' = [upTo CHR ''='' (trim piece)]"
    using splitOn_upTo [of "trim piece" "CHR ''=''"] by simp
  with False show ?thesis by (simp add: cookieName_def cookieValue_def)
qed

lemma fold_pairs:
  "foldl (\<lambda>acc piece. acc(cookieName piece := cookieValue piece)) acc pieces name =
     (case filter (\<lambda>p. cookieName p = name) pieces of
        [] \<Rightarrow> acc name
      | p # ps \<Rightarrow> cookieValue (last (p # ps)))"
proof (induction pieces rule: rev_induct)
  case Nil then show ?case by simp
next
  case (snoc q qs)
  show ?case
  proof (cases "cookieName q = name")
    case True
    then have f: "filter (\<lambda>p. cookieName p = name) (qs @ [q]) =
        filter (\<lambda>p. cookieName p = name) qs @ [q]" by simp
    then obtain x xs where c: "filter (\<lambda>p. cookieName p = name) (qs @ [q]) = x # xs"
      by (cases "filter (\<lambda>p. cookieName p = name) (qs @ [q])") auto
    have "last (x # xs) = q" unfolding c [symmetric] f by simp
    with True show ?thesis unfolding c by simp
  next
    case False
    with snoc show ?thesis by simp
  qed
qed

lemma parseCookies_cookieOf:
  "parseCookies header name = cookieOf (splitOn header CHR '';'') name"
proof -
  have "parseCookies header =
      foldl (\<lambda>acc piece. acc(cookieName piece := cookieValue piece)) Map.empty (splitOn header CHR '';'')"
    unfolding parseCookies_def pair_step ..
  then show ?thesis by (simp add: fold_pairs cookieOf_def)
qed

lemma trim_core:
  assumes "list_all isSpace a" and "list_all isSpace b"
    and "core = [] \<or> (\<not> isSpace (hd core) \<and> \<not> isSpace (last core))"
  shows "trim (a @ core @ b) = core"
proof (cases core)
  case Nil
  from assms(1,2) have d: "dropWhile isSpace (a @ b) = []"
    by (auto simp: dropWhile_eq_Nil_conv list_all_iff)
  have "trim (a @ b) = []" unfolding trim_def d by simp
  with Nil show ?thesis by simp
next
  case (Cons c cs)
  with assms(3) have c: "\<not> isSpace c" and l: "\<not> isSpace (last (c # cs))" by simp_all
  from assms(1) have "dropWhile isSpace (a @ core @ b) = core @ b"
    using c Cons by (simp add: list_all_iff dropWhile_append2)
  moreover have "dropWhile isSpace (rev (core @ b)) = rev core"
  proof -
    from Cons obtain front e where core: "core = front @ [e]"
      by (metis list.distinct(1) rev_exhaust)
    from assms(3) core have "\<not> isSpace (last (front @ [e]))" by auto
    then have e: "\<not> isSpace e" by simp
    have r: "rev (core @ b) = rev b @ (e # rev front)" by (simp add: core)
    have "\<And>x. x \<in> set (rev b) \<Longrightarrow> isSpace x" using assms(2) by (simp add: list_all_iff)
    then have "dropWhile isSpace (rev b @ (e # rev front)) = dropWhile isSpace (e # rev front)"
      by (rule dropWhile_append2)
    with e have "dropWhile isSpace (rev b @ (e # rev front)) = e # rev front" by simp
    then show ?thesis unfolding r by (simp add: core)
  qed
  ultimately show ?thesis by (simp add: trim_def)
qed

lemma upTo_front: "c \<notin> set k \<Longrightarrow> upTo c (k @ c # x) = k"
  by (induction k) (auto simp: upTo_def)

lemma upTo_all: "c \<notin> set k \<Longrightarrow> upTo c k = k"
  by (induction k) (auto simp: upTo_def)

lemma pastFirst_front: "c \<notin> set k \<Longrightarrow> pastFirst c (k @ c # x) = x"
  by (induction k) (auto simp: pastFirst_def)

lemma piece_cut:
  assumes "trim piece = k @ ''='' @ v @ ''='' @ rest" and "CHR ''='' \<notin> set k" and "CHR ''='' \<notin> set v"
  shows "cookieName piece = k \<and> cookieValue piece = Some v"
proof -
  have t: "trim piece = k @ CHR ''='' # (v @ CHR ''='' # rest)" using assms(1) by simp
  show ?thesis unfolding cookieName_def cookieValue_def t
    using assms(2,3) by (simp add: upTo_front pastFirst_front)
qed

lemma piece_whole:
  assumes "trim piece = k @ ''='' @ v" and "CHR ''='' \<notin> set k" and "CHR ''='' \<notin> set v"
  shows "cookieName piece = k \<and> cookieValue piece = Some v"
proof -
  have t: "trim piece = k @ CHR ''='' # v" using assms(1) by simp
  show ?thesis unfolding cookieName_def cookieValue_def t
    using assms(2,3) by (simp add: upTo_front pastFirst_front upTo_all)
qed

lemma piece_bare:
  assumes "CHR ''='' \<notin> set (trim piece)"
  shows "cookieName piece = trim piece \<and> cookieValue piece = None"
  using assms by (simp add: cookieName_def cookieValue_def upTo_all)

lemma parse_join:
  assumes "pieces \<noteq> []" and "\<forall>p\<in>set pieces. CHR '';'' \<notin> set p"
  shows "parseCookies (joinWith CHR '';'' pieces) name = cookieOf pieces name"
  unfolding parseCookies_cookieOf splitOn_join [OF assms] ..

lemma cookie_samples:
  "parseCookies ''sessionId=abc=def'' ''sessionId'' = Some ''abc''"
  "parseCookies ''sessionId=abc=def; sessionId=xyz'' ''sessionId'' = Some ''xyz''"
  "parseCookies ''theme=dark; sessionId=abc=def ; lang=en'' ''sessionId'' = Some ''abc''"
  by (simp_all add: parseCookies_def splitOn_def trim_def isSpace_def)

text \<open>
  Claim C6, as amended. The cookie header is split at every \<open>;\<close> (every header is the
  join of its pieces, none of which holds a \<open>;\<close>). Each piece is trimmed of the white
  space around it and split at every \<open>=\<close>: its name is the trimmed text before the
  first \<open>=\<close>, and its value is the text between the first and the second \<open>=\<close>, up
  to the end when there is no second one; a piece without \<open>=\<close> has a name and no
  value. The value read for a name is that of the last piece of that name. So of a
  \<open>sessionId\<close> cookie whose value holds an \<open>=\<close>, the session identifier read is the
  part of the value before that \<open>=\<close>, what follows is dropped, and a later
  \<open>sessionId\<close> piece of the header replaces it.
\<close>

theorem cookie_pairs:
  "(pieces \<noteq> [] \<and> (\<forall>p\<in>set pieces. CHR '';'' \<notin> set p)
      \<longrightarrow> parseCookies (joinWith CHR '';'' pieces) name = cookieOf pieces name)
   \<and> (\<exists>ps. ps \<noteq> [] \<and> (\<forall>p\<in>set ps. CHR '';'' \<notin> set p) \<and> joinWith CHR '';'' ps = header)
   \<and> (list_all isSpace a \<and> list_all isSpace b \<and>
       (core = [] \<or> (\<not> isSpace (hd core) \<and> \<not> isSpace (last core)))
      \<longrightarrow> trim (a @ core @ b) = core)
   \<and> (trim piece = k @ ''='' @ v @ ''='' @ rest \<and> CHR ''='' \<notin> set k \<and> CHR ''='' \<notin> set v
      \<longrightarrow> cookieName piece = k \<and> cookieValue piece = Some v)
   \<and> (trim piece = k @ ''='' @ v \<and> CHR ''='' \<notin> set k \<and> CHR ''='' \<notin> set v
      \<longrightarrow> cookieName piece = k \<and> cookieValue piece = Some v)
   \<and> (CHR ''='' \<notin> set (trim piece)
      \<longrightarrow> cookieName piece = trim piece \<and> cookieValue piece = None)
   \<and> parseCookies ''sessionId=abc=def'' ''sessionId'' = Some ''abc''
   \<and> parseCookies ''sessionId=abc=def; sessionId=xyz'' ''sessionId'' = Some ''xyz''
   \<and> parseCookies ''theme=dark; sessionId=abc=def ; lang=en'' ''sessionId'' = Some ''abc''"
proof -
  have join: "\<exists>ps. ps \<noteq> [] \<and> (\<forall>p\<in>set ps. CHR '';'' \<notin> set p) \<and> joinWith CHR '';'' ps = header"
    using header_is_join [of header "CHR '';''"] by blast
  from parse_join [where pieces = pieces and name = name] join
    trim_core [where a = a and b = b and core = core]
    piece_cut [where piece = piece and k = k and v = v and rest = rest]
    piece_whole [where piece = piece and k = k and v = v]
    piece_bare [where piece = piece]
    cookie_samples
  show ?thesis by blast
qed

theorem cookie_pairs_witness:
  "parseCookies ''theme=dark; sessionId=abc=def ; sessionId=xyz=1;flag'' ''sessionId'' = Some ''xyz''
   \<and> parseCookies ''theme=dark; sessionId=abc=def ; sessionId=xyz=1;flag'' ''flag'' = None
   \<and> trim '' sessionId=abc=def  '' = ''sessionId=abc=def''
   \<and> cookieName '' sessionId=abc=def  '' = ''sessionId''
   \<and> cookieValue '' sessionId=abc=def  '' = Some ''abc''
   \<and> cookieValue ''theme=dark'' = Some ''dark''
   \<and> cookieValue ''flag'' = None"
proof -
  let ?pieces = "[''theme=dark'', '' sessionId=abc=def '', '' sessionId=xyz=1'', ''flag'']"
  note at_id = cookie_pairs [where pieces = ?pieces and name = "''sessionId''"
      and header = "''theme=dark''" and a = "'' ''" and b = "''  ''" and core = "''sessionId=abc=def''"
      and piece = "'' sessionId=abc=def  ''" and k = "''sessionId''" and v = "''abc''"
      and rest = "''def''"]
  note at_flag = cookie_pairs [where pieces = ?pieces and name = "''flag''"
      and header = "''theme=dark''" and a = "[]" and b = "[]" and core = "''theme=dark''"
      and piece = "''theme=dark''" and k = "''theme''" and v = "''dark''" and rest = "[]"]
  note at_bare = cookie_pairs [where pieces = ?pieces and name = "''flag''"
      and header = "''theme=dark''" and a = "[]" and b = "[]" and core = "''flag''"
      and piece = "''flag''" and k = "[]" and v = "[]" and rest = "[]"]
  have p: "?pieces \<noteq> [] \<and> (\<forall>p\<in>set ?pieces. CHR '';'' \<notin> set p)" by simp
  have j: "joinWith CHR '';'' ?pieces = ''theme=dark; sessionId=abc=def ; sessionId=xyz=1;flag''"
    by simp
  have sp: "list_all isSpace '' ''" "list_all isSpace ''  ''"
    "\<not> isSpace (hd ''sessionId=abc=def'')" "\<not> isSpace (last ''sessionId=abc=def'')"
    "list_all isSpace []" "\<not> isSpace (hd ''theme=dark'')" "\<not> isSpace (last ''theme=dark'')"
    "\<not> isSpace (hd ''flag'')" "\<not> isSpace (last ''flag'')"
    by (simp_all add: isSpace_def)
  from at_id [THEN conjunct2, THEN conjunct2, THEN conjunct1] sp
  have t1: "trim ('' '' @ ''sessionId=abc=def'' @ ''  '') = ''sessionId=abc=def''" by blast
  then have t1': "trim '' sessionId=abc=def  '' = ''sessionId'' @ ''='' @ ''abc'' @ ''='' @ ''def''"
    by simp
  from at_flag [THEN conjunct2, THEN conjunct2, THEN conjunct1] sp
  have "trim ([] @ ''theme=dark'' @ []) = ''theme=dark''" by blast
  then have t2: "trim ''theme=dark'' = ''theme'' @ ''='' @ ''dark''" by simp
  from at_bare [THEN conjunct2, THEN conjunct2, THEN conjunct1] sp
  have "trim ([] @ ''flag'' @ []) = ''flag''" by blast
  then have t3: "trim ''flag'' = ''flag''" by simp
  have e: "CHR ''='' \<notin> set ''sessionId''" "CHR ''='' \<notin> set ''abc''"
    "CHR ''='' \<notin> set ''theme''" "CHR ''='' \<notin> set ''dark''"
    "CHR ''='' \<notin> set ''flag''" by simp_all
  from at_id [THEN conjunct2, THEN conjunct2, THEN conjunct2, THEN conjunct1] t1' e
  have c1: "cookieName '' sessionId=abc=def  '' = ''sessionId''"
    "cookieValue '' sessionId=abc=def  '' = Some ''abc''" by blast+
  from at_flag [THEN conjunct2, THEN conjunct2, THEN conjunct2, THEN conjunct2, THEN conjunct1] t2 e
  have c2: "cookieValue ''theme=dark'' = Some ''dark''" by blast
  from at_bare [THEN conjunct2, THEN conjunct2, THEN conjunct2, THEN conjunct2, THEN conjunct2,
      THEN conjunct1] t3 e
  have c3: "cookieValue ''flag'' = None" by (simp only: t3) simp
  have v: "cookieOf ?pieces ''sessionId'' = Some ''xyz''" "cookieOf ?pieces ''flag'' = None"
    by (simp_all add: cookieOf_def cookieName_def cookieValue_def upTo_def pastFirst_def
          trim_def isSpace_def)
  from at_id [THEN conjunct1] p
  have "parseCookies (joinWith CHR '';'' ?pieces) ''sessionId'' = cookieOf ?pieces ''sessionId''"
    by blast
  with v(1) have r1: "parseCookies ''theme=dark; sessionId=abc=def ; sessionId=xyz=1;flag'' ''sessionId''
      = Some ''xyz''" unfolding j by simp
  from at_flag [THEN conjunct1] p
  have "parseCookies (joinWith CHR '';'' ?pieces) ''flag'' = cookieOf ?pieces ''flag''"
    by blast
  with v(2) have r2: "parseCookies ''theme=dark; sessionId=abc=def ; sessionId=xyz=1;flag'' ''flag''
      = None" unfolding j by simp
  from r1 r2 t1 c1 c2 c3 show ?thesis by simp
qed

text \<open>
  The claim C6 as first stated (the whole text after the first \<open>=\<close> is the identifier)
  fails on the header \<open>sessionId=abc=def\<close>: the identifier read is \<open>abc\<close>.
\<close>

theorem cookie_value_counterexample:
  "parseCookies ''sessionId=abc=def'' ''sessionId'' = Some ''abc''
   \<and> parseCookies ''sessionId=abc=def'' ''sessionId'' \<noteq> Some ''abc=def''"
  by (simp add: parseCookies_def splitOn_def trim_def isSpace_def)

section \<open>Login\<close>

lemma strictEq_Some: "strictEq v (Some t) = (v = Some (JStr t))"
  by (cases "(v, Some t)" rule: strictEq.cases) auto

lemma showNat_ages: "showNat 2592000 = ''2592000''" "showNat 86400 = ''86400''"
  by (simp_all add: showNat.simps)

lemma handleLogin_reads:
  assumes "body request = Inr b" and "b \<noteq> JNull"
    and "getFails (NAV_AUTH env) ''admin_username'' = None"
    and "getFails (NAV_AUTH env) ''admin_password'' = None"
  shows "handleLogin sessionId request env =
     (let kv2 = (NAV_AUTH env)\<lparr>calls := calls (NAV_AUTH env) @
                   [Get ''admin_username'', Get ''admin_password'']\<rparr>;
          maxAge = (if truthy (getProp b ''remember'') then 30 * 86400 else 86400)
      in if strictEq (getProp b ''username'') (map_option fst (entries (NAV_AUTH env) ''admin_username''))
            \<and> strictEq (getProp b ''password'') (map_option fst (entries (NAV_AUTH env) ''admin_password''))
         then (case putFails (NAV_AUTH env) (''session:'' @ sessionId) of
                 Some msg \<Rightarrow>
                   (loginFailure msg 500,
                    env\<lparr>NAV_AUTH := kv2\<lparr>calls := calls kv2 @
                           [Put (''session:'' @ sessionId) ''valid'' (Some maxAge)]\<rparr>\<rparr>)
               | None \<Rightarrow>
                   (\<lparr>status = 200,
                     resHeaders =
                       [jsonHeader,
                        (''Set-Cookie'', ''sessionId='' @ sessionId @
                           ''; HttpOnly; Secure; Path=/; Max-Age='' @ showNat maxAge)],
                     content = Stringified
                       (JObj [(''success'', JBool True), (''message'', JStr ''Login successful'')])\<rparr>,
                    env\<lparr>NAV_AUTH := kv2\<lparr>entries := (entries kv2)(''session:'' @ sessionId \<mapsto> (''valid'', Some maxAge)),
                           calls := calls kv2 @
                           [Put (''session:'' @ sessionId) ''valid'' (Some maxAge)]\<rparr>\<rparr>))
         else (loginFailure ''Invalid username or password'' 401, env\<lparr>NAV_AUTH := kv2\<rparr>))"
  using assms
  by (simp add: handleLogin_def kvGet_def kvPut_def Let_def split: option.splits)

text \<open>
  Claim C3. When the body parses, the store answers and both secrets are configured, a
  login whose username and password are exactly the two secrets stores \<open>valid\<close> under
  \<open>session:<id>\<close> for the identifier that \<open>crypto.randomUUID()\<close> returned, with an
  expiry of 2592000 seconds when \<open>remember\<close> holds and of 86400 seconds otherwise, and
  answers with status 200 and the header \<open>Set-Cookie: sessionId=<id>; HttpOnly; Secure;
  Path=/; Max-Age=<n>\<close>, where \<open>n\<close> is that expiry.
\<close>

theorem login_success:
  assumes "body request = Inr b" and "b \<noteq> JNull"
    and "getFails (NAV_AUTH env) ''admin_username'' = None"
    and "getFails (NAV_AUTH env) ''admin_password'' = None"
    and "map_option fst (entries (NAV_AUTH env) ''admin_username'') = Some user"
    and "map_option fst (entries (NAV_AUTH env) ''admin_password'') = Some pass"
    and "getProp b ''username'' = Some (JStr user)"
    and "getProp b ''password'' = Some (JStr pass)"
    and "putFails (NAV_AUTH env) (''session:'' @ sessionId) = None"
  shows "status (fst (handleLogin sessionId request env)) = 200
    \<and> resHeaders (fst (handleLogin sessionId request env)) =
        [jsonHeader,
         (''Set-Cookie'', ''sessionId='' @ sessionId @ ''; HttpOnly; Secure; Path=/; Max-Age='' @
            (if truthy (getProp b ''remember'') then ''2592000'' else ''86400''))]
    \<and> entries (NAV_AUTH (snd (handleLogin sessionId request env))) =
        (entries (NAV_AUTH env))(''session:'' @ sessionId \<mapsto>
            (''valid'', Some (if truthy (getProp b ''remember'') then 2592000 else 86400)))
    \<and> last (calls (NAV_AUTH (snd (handleLogin sessionId request env)))) =
        Put (''session:'' @ sessionId) ''valid''
            (Some (if truthy (getProp b ''remember'') then 2592000 else 86400))"
  unfolding handleLogin_reads [OF assms(1-4)] assms(5-9) strictEq_Some
  by (simp add: showNat_ages Let_def)

theorem login_success_witness:
  "status (fst (handleLogin ''uuid-1''
      (sampleRequest ''POST'' ''/admin/login'' None
         (Inr (JObj [(''username'', JStr ''admin''), (''password'', JStr ''s3cret''),
                     (''remember'', JBool True)]))) sampleEnv)) = 200
   \<and> resHeaders (fst (handleLogin ''uuid-1''
      (sampleRequest ''POST'' ''/admin/login'' None
         (Inr (JObj [(''username'', JStr ''admin''), (''password'', JStr ''s3cret''),
                     (''remember'', JBool True)]))) sampleEnv)) =
       [jsonHeader,
        (''Set-Cookie'', ''sessionId=uuid-1; HttpOnly; Secure; Path=/; Max-Age=2592000'')]
   \<and> entries (NAV_AUTH (snd (handleLogin ''uuid-1''
      (sampleRequest ''POST'' ''/admin/login'' None
         (Inr (JObj [(''username'', JStr ''admin''), (''password'', JStr ''s3cret''),
                     (''remember'', JBool True)]))) sampleEnv))) ''session:uuid-1''
       = Some (''valid'', Some 2592000)
   \<and> resHeaders (fst (handleLogin ''uuid-2''
      (sampleRequest ''POST'' ''/admin/login'' None
         (Inr (JObj [(''username'', JStr ''admin''), (''password'', JStr ''s3cret''),
                     (''remember'', JBool False)]))) sampleEnv)) =
       [jsonHeader,
        (''Set-Cookie'', ''sessionId=uuid-2; HttpOnly; Secure; Path=/; Max-Age=86400'')]"
proof -
  let ?b = "JObj [(''username'', JStr ''admin''), (''password'', JStr ''s3cret''),
                  (''remember'', JBool True)]"
  let ?c = "JObj [(''username'', JStr ''admin''), (''password'', JStr ''s3cret''),
                  (''remember'', JBool False)]"
  from login_success [where request = "sampleRequest ''POST'' ''/admin/login'' None (Inr ?b)"
      and b = ?b and env = sampleEnv and user = "''admin''" and pass = "''s3cret''"
      and sessionId = "''uuid-1''"]
    login_success [where request = "sampleRequest ''POST'' ''/admin/login'' None (Inr ?c)"
      and b = ?c and env = sampleEnv and user = "''admin''" and pass = "''s3cret''"
      and sessionId = "''uuid-2''"]
  show ?thesis by (simp add: sample_defs)
qed

text \<open>
  When the body parses, the store answers and both secrets are configured, a login whose
  username or password is not the configured secret is answered with status 401, and
  nothing is written: no entry of the store changes and the only calls made are the two
  reads of the secrets.
\<close>

theorem login_failure:
  assumes "body request = Inr b" and "b \<noteq> JNull"
    and "getFails (NAV_AUTH env) ''admin_username'' = None"
    and "getFails (NAV_AUTH env) ''admin_password'' = None"
    and "map_option fst (entries (NAV_AUTH env) ''admin_username'') = Some user"
    and "map_option fst (entries (NAV_AUTH env) ''admin_password'') = Some pass"
    and "getProp b ''username'' \<noteq> Some (JStr user) \<or> getProp b ''password'' \<noteq> Some (JStr pass)"
  shows "status (fst (handleLogin sessionId request env)) = 401
    \<and> entries (NAV_AUTH (snd (handleLogin sessionId request env))) = entries (NAV_AUTH env)
    \<and> readsOnly (NAV_AUTH env) (NAV_AUTH (snd (handleLogin sessionId request env)))
    \<and> NAV_DB (snd (handleLogin sessionId request env)) = NAV_DB env"
proof -
  have "calls (NAV_AUTH env) @ [Get ''admin_username'', Get ''admin_password'']
          = calls (NAV_AUTH env) @ map Get [''admin_username'', ''admin_password'']" by simp
  then have "\<exists>gets. calls (NAV_AUTH env) @ [Get ''admin_username'', Get ''admin_password'']
          = calls (NAV_AUTH env) @ map Get gets" by (rule exI)
  then show ?thesis
    unfolding handleLogin_reads [OF assms(1-4)] assms(5,6) strictEq_Some
    using assms(7) by (auto simp: loginFailure_def readsOnly_def Let_def)
qed

theorem login_failure_witness:
  "status (fst (handleLogin ''uuid-1''
      (sampleRequest ''POST'' ''/admin/login'' None
         (Inr (JObj [(''username'', JStr ''admin''), (''password'', JStr ''guess'')]))) sampleEnv)) = 401
   \<and> entries (NAV_AUTH (snd (handleLogin ''uuid-1''
      (sampleRequest ''POST'' ''/admin/login'' None
         (Inr (JObj [(''username'', JStr ''admin''), (''password'', JStr ''guess'')]))) sampleEnv)))
       = entries (NAV_AUTH sampleEnv)"
proof -
  let ?b = "JObj [(''username'', JStr ''admin''), (''password'', JStr ''guess'')]"
  from login_failure [where request = "sampleRequest ''POST'' ''/admin/login'' None (Inr ?b)"
      and b = ?b and env = sampleEnv and user = "''admin''" and pass = "''s3cret''"
      and sessionId = "''uuid-1''"]
  show ?thesis by (simp add: sample_defs)
qed

text \<open>
  Claim C7 fails where a secret is not configured. The store answers \<open>null\<close> for a key
  that is absent, and \<open>null === null\<close> holds, so on a store that holds neither
  \<open>admin_username\<close> nor \<open>admin_password\<close> the login \<open>{"username": null, "password":
  null}\<close>, which equals no configured secret, is not answered with 401: the answer has
  status 200 and sets the session cookie, and \<open>valid\<close> is stored under
  \<open>session:<id>\<close> for 86400 seconds.
\<close>

theorem login_unconfigured:
  "entries (NAV_AUTH unconfiguredEnv) ''admin_username'' = None
   \<and> entries (NAV_AUTH unconfiguredEnv) ''admin_password'' = None
   \<and> status (fst (handleLogin ''uuid-1''
        (sampleRequest ''POST'' ''/admin/login'' None
           (Inr (JObj [(''username'', JNull), (''password'', JNull)]))) unconfiguredEnv)) = 200
   \<and> resHeaders (fst (handleLogin ''uuid-1''
        (sampleRequest ''POST'' ''/admin/login'' None
           (Inr (JObj [(''username'', JNull), (''password'', JNull)]))) unconfiguredEnv)) =
       [(''Content-Type'', ''application/json''),
        (''Set-Cookie'', ''sessionId=uuid-1; HttpOnly; Secure; Path=/; Max-Age=86400'')]
   \<and> entries (NAV_AUTH (snd (handleLogin ''uuid-1''
        (sampleRequest ''POST'' ''/admin/login'' None
           (Inr (JObj [(''username'', JNull), (''password'', JNull)]))) unconfiguredEnv)))
        ''session:uuid-1'' = Some (''valid'', Some 86400)"
proof -
  let ?b = "JObj [(''username'', JNull), (''password'', JNull)]"
  let ?l = "sampleRequest ''POST'' ''/admin/login'' None (Inr ?b)"
  have "body ?l = Inr ?b" "?b \<noteq> JNull"
    "getFails (NAV_AUTH unconfiguredEnv) ''admin_username'' = None"
    "getFails (NAV_AUTH unconfiguredEnv) ''admin_password'' = None"
    by (simp_all add: unconfiguredEnv_def sample_defs)
  from handleLogin_reads [OF this, of "''uuid-1''"]
  show ?thesis
    by (simp add: unconfiguredEnv_def sample_defs Let_def showNat_ages jsonHeader_def)
qed

section \<open>Logout and the life of a session\<close>

lemma handleLogout_sessionIdOf:
  "handleLogout request env =
     (case sessionIdOf request of
        None \<Rightarrow> (loggedOut, env)
      | Some sid \<Rightarrow>
          (case deleteFails (NAV_AUTH env) (''session:'' @ sid) of
             None \<Rightarrow>
               (loggedOut,
                env\<lparr>NAV_AUTH := (NAV_AUTH env)\<lparr>entries := (entries (NAV_AUTH env))(''session:'' @ sid := None),
                       calls := calls (NAV_AUTH env) @ [Delete (''session:'' @ sid)]\<rparr>\<rparr>)
           | Some msg \<Rightarrow>
               (loginFailure msg 500,
                env\<lparr>NAV_AUTH := (NAV_AUTH env)\<lparr>calls := calls (NAV_AUTH env) @ [Delete (''session:'' @ sid)]\<rparr>\<rparr>)))"
  by (auto simp: handleLogout_def sessionIdOf_def kvDelete_def parseCookies_empty
           split: option.splits)




lemma handleLogin_entries:
  "entries (NAV_AUTH (snd (handleLogin uuid request env))) = entries (NAV_AUTH env)
   \<or> (status (fst (handleLogin uuid request env)) = 200 \<and>
       (\<exists>ttl. entries (NAV_AUTH (snd (handleLogin uuid request env)))
                 = (entries (NAV_AUTH env))(''session:'' @ uuid \<mapsto> (''valid'', ttl))))"
proof (cases "body request")
  case (Inl msg)
  then show ?thesis by (simp add: handleLogin_def)
next
  case (Inr b)
  show ?thesis
  proof (cases "b = JNull")
    case True
    with Inr show ?thesis by (simp add: handleLogin_def)
  next
    case False
    show ?thesis
    proof (cases "getFails (NAV_AUTH env) ''admin_username'' = None \<and> getFails (NAV_AUTH env) ''admin_password'' = None")
      case True
      then show ?thesis
        unfolding handleLogin_reads [OF Inr False conjunct1 [OF True] conjunct2 [OF True]]
        by (auto simp: Let_def loginFailure_def split: option.splits)
    next
      case False
      with Inr \<open>b \<noteq> JNull\<close> show ?thesis
        by (auto simp: handleLogin_def kvGet_def Let_def split: option.splits)
    qed
  qed
qed

lemma issued_cookie_read:
  assumes "s \<noteq> []" and "CHR ''='' \<notin> set s" and "CHR '';'' \<notin> set s"
    and "\<not> isSpace (last s)"
    and "headers request ''Cookie'' = Some (''sessionId='' @ s)"
  shows "sessionIdOf request = Some s"
proof -
  from assms(1) obtain front l where s: "s = front @ [l]"
    by (metis rev_exhaust)
  with assms(4) have l: "\<not> isSpace l" by simp
  have "\<not> isSpace CHR ''s''" by (simp add: isSpace_def)
  from trim_keeps_front [OF this l, of "''essionId='' @ front" "[]"]
  have t: "trim (''sessionId='' @ s) = ''sessionId'' @ CHR ''='' # s"
    by (simp add: s)
  have "CHR ''='' \<notin> set ''sessionId''" by simp
  from splitOn_two [OF this assms(2)]
  have sp: "splitOn (''sessionId'' @ CHR ''='' # s) CHR ''='' = [''sessionId'', s]" .
  have "CHR '';'' \<notin> set (''sessionId='' @ s)" using assms(3) by simp
  from parseCookies_one [OF this, of "''sessionId''"]
  have "parseCookies (''sessionId='' @ s) ''sessionId'' = Some s"
    unfolding t sp by simp
  with assms(1,5) show ?thesis by (simp add: sessionIdOf_def)
qed

text \<open>
  Claim C5. For a session identifier \<open>s\<close> whose entry is \<open>valid\<close>, a logout with a
  \<open>Cookie\<close> header from which \<open>s\<close> is read deletes \<open>session:<s>\<close> (the delete call
  succeeding), and an auth check with the same request is then false. The header
  \<open>sessionId=s\<close> is such a header for every \<open>s\<close> that is not empty, holds no \<open>=\<close>
  and no \<open>;\<close> and does not end in white space, as the identifiers a login issues are.
  Per session identifier, the auth check changes nothing, a login changes the state of
  the identifier it issued only and only to \<open>valid\<close>, and a logout changes the state of
  the identifier it read only and only to absent.
\<close>

theorem session_lifecycle:
  "(sessionState (NAV_AUTH env) s = Some ''valid'' \<and> sessionIdOf request = Some s \<and>
    deleteFails (NAV_AUTH env) (''session:'' @ s) = None
      \<longrightarrow> sessionState (NAV_AUTH (snd (handleLogout request env))) s = None \<and>
          \<not> fst (checkAuth request (snd (handleLogout request env))))
   \<and> sessionState (NAV_AUTH (snd (checkAuth request env))) sid = sessionState (NAV_AUTH env) sid
   \<and> (sessionState (NAV_AUTH (snd (handleLogin uuid request env))) sid \<noteq> sessionState (NAV_AUTH env) sid
        \<longrightarrow> sid = uuid \<and> status (fst (handleLogin uuid request env)) = 200 \<and>
            sessionState (NAV_AUTH (snd (handleLogin uuid request env))) sid = Some ''valid'')
   \<and> (sessionState (NAV_AUTH (snd (handleLogout request env))) sid \<noteq> sessionState (NAV_AUTH env) sid
        \<longrightarrow> sessionIdOf request = Some sid \<and> status (fst (handleLogout request env)) = 200 \<and>
            sessionState (NAV_AUTH (snd (handleLogout request env))) sid = None)
   \<and> (s \<noteq> [] \<and> CHR ''='' \<notin> set s \<and> CHR '';'' \<notin> set s \<and> \<not> isSpace (last s) \<and>
       headers request ''Cookie'' = Some (''sessionId='' @ s)
        \<longrightarrow> sessionIdOf request = Some s)"
proof -
  have A: "sessionState (NAV_AUTH env) s = Some ''valid'' \<and> sessionIdOf request = Some s \<and>
    deleteFails (NAV_AUTH env) (''session:'' @ s) = None
      \<longrightarrow> sessionState (NAV_AUTH (snd (handleLogout request env))) s = None \<and>
          \<not> fst (checkAuth request (snd (handleLogout request env)))"
    unfolding checkAuth_sessionIdOf handleLogout_sessionIdOf
    by (auto simp: sessionState_def split: option.splits)
  have B: "sessionState (NAV_AUTH (snd (checkAuth request env))) sid = sessionState (NAV_AUTH env) sid"
    using checkAuth_readsOnly(1) [where env = env and request = request]
    by (simp add: readsOnly_def sessionState_def)
  have C: "sessionState (NAV_AUTH (snd (handleLogin uuid request env))) sid \<noteq> sessionState (NAV_AUTH env) sid
        \<longrightarrow> sid = uuid \<and> status (fst (handleLogin uuid request env)) = 200 \<and>
            sessionState (NAV_AUTH (snd (handleLogin uuid request env))) sid = Some ''valid''"
    using handleLogin_entries [of uuid request env]
    by (auto simp: sessionState_def split: if_splits)
  have D: "sessionState (NAV_AUTH (snd (handleLogout request env))) sid \<noteq> sessionState (NAV_AUTH env) sid
        \<longrightarrow> sessionIdOf request = Some sid \<and> status (fst (handleLogout request env)) = 200 \<and>
            sessionState (NAV_AUTH (snd (handleLogout request env))) sid = None"
    unfolding handleLogout_sessionIdOf
    by (auto simp: sessionState_def loggedOut_def split: option.splits if_splits)
  have E: "s \<noteq> [] \<and> CHR ''='' \<notin> set s \<and> CHR '';'' \<notin> set s \<and> \<not> isSpace (last s) \<and>
       headers request ''Cookie'' = Some (''sessionId='' @ s)
        \<longrightarrow> sessionIdOf request = Some s"
    using issued_cookie_read [where s = s and request = request] by blast
  from A B C D E show ?thesis by blast
qed

theorem session_lifecycle_witness:
  "fst (checkAuth (sampleRequest ''GET'' ''/api/pending'' (Some ''sessionId=abc'') (Inl [])) sampleEnv)
   \<and> sessionState (NAV_AUTH (snd (handleLogout
        (sampleRequest ''GET'' ''/api/pending'' (Some ''sessionId=abc'') (Inl [])) sampleEnv))) ''abc''
       = None
   \<and> \<not> fst (checkAuth (sampleRequest ''GET'' ''/api/pending'' (Some ''sessionId=abc'') (Inl []))
        (snd (handleLogout
          (sampleRequest ''GET'' ''/api/pending'' (Some ''sessionId=abc'') (Inl [])) sampleEnv)))
   \<and> status (fst (handleLogout
        (sampleRequest ''GET'' ''/api/pending'' (Some ''sessionId=abc'') (Inl [])) sampleEnv)) = 200
   \<and> sessionState (NAV_AUTH (snd (handleLogin ''uuid-1''
        (sampleRequest ''POST'' ''/admin/login'' None
           (Inr (JObj [(''username'', JStr ''admin''), (''password'', JStr ''s3cret'')])))
        sampleEnv))) ''uuid-1'' = Some ''valid''"
proof -
  let ?r = "sampleRequest ''GET'' ''/api/pending'' (Some ''sessionId=abc'') (Inl [])"
  have s: "sessionState (NAV_AUTH sampleEnv) ''abc'' = Some ''valid''"
    "deleteFails (NAV_AUTH sampleEnv) (''session:'' @ ''abc'') = None"
    "getFails (NAV_AUTH sampleEnv) (''session:'' @ ''abc'') = None"
    by (simp_all add: sample_defs sessionState_def)
  have a: "fst (checkAuth ?r sampleEnv)"
    unfolding checkAuth_sessionIdOf sample_sessionIdOf using s by simp
  have h: "''abc'' \<noteq> []" "CHR ''='' \<notin> set ''abc''" "CHR '';'' \<notin> set ''abc''"
    "\<not> isSpace (last ''abc'')" "headers ?r ''Cookie'' = Some (''sessionId='' @ ''abc'')"
    by (simp_all add: isSpace_def sampleRequest_def)
  let ?l = "sampleRequest ''POST'' ''/admin/login'' None
       (Inr (JObj [(''username'', JStr ''admin''), (''password'', JStr ''s3cret'')]))"
  note out_facts = session_lifecycle [where request = ?r and env = sampleEnv and s = "''abc''"
      and sid = "''abc''" and uuid = "''uuid-1''"]
  note in_facts = session_lifecycle [where request = ?l and env = sampleEnv and s = "''abc''"
      and sid = "''uuid-1''" and uuid = "''uuid-1''"]
  from out_facts [THEN conjunct2, THEN conjunct2, THEN conjunct2, THEN conjunct2] h
  have id: "sessionIdOf ?r = Some ''abc''" by blast
  from out_facts [THEN conjunct1] s(1,2) id
  have gone: "sessionState (NAV_AUTH (snd (handleLogout ?r sampleEnv))) ''abc'' = None"
    and denied: "\<not> fst (checkAuth ?r (snd (handleLogout ?r sampleEnv)))"
    by blast+
  from gone s(1)
  have "sessionState (NAV_AUTH (snd (handleLogout ?r sampleEnv))) ''abc''
      \<noteq> sessionState (NAV_AUTH sampleEnv) ''abc''" by simp
  with out_facts [THEN conjunct2, THEN conjunct2, THEN conjunct2, THEN conjunct1]
  have out: "status (fst (handleLogout ?r sampleEnv)) = 200" by blast
  have "sessionState (NAV_AUTH sampleEnv) ''uuid-1'' = None"
    by (simp add: sample_defs sessionState_def)
  moreover have "sessionState (NAV_AUTH (snd (handleLogin ''uuid-1'' ?l sampleEnv))) ''uuid-1'' \<noteq> None"
  proof -
    have "body ?l = Inr (JObj [(''username'', JStr ''admin''), (''password'', JStr ''s3cret'')])"
      "JObj [(''username'', JStr ''admin''), (''password'', JStr ''s3cret'')] \<noteq> JNull"
      "getFails (NAV_AUTH sampleEnv) ''admin_username'' = None"
      "getFails (NAV_AUTH sampleEnv) ''admin_password'' = None"
      by (simp_all add: sample_defs)
    from handleLogin_reads [OF this, of "''uuid-1''"]
    show ?thesis by (simp add: sample_defs sessionState_def Let_def)
  qed
  ultimately have "sessionState (NAV_AUTH (snd (handleLogin ''uuid-1'' ?l sampleEnv))) ''uuid-1''
      \<noteq> sessionState (NAV_AUTH sampleEnv) ''uuid-1''" by simp
  with in_facts [THEN conjunct2, THEN conjunct2, THEN conjunct1]
  have login: "sessionState (NAV_AUTH (snd (handleLogin ''uuid-1'' ?l sampleEnv))) ''uuid-1'' = Some ''valid''"
    by blast
  from a gone denied out login show ?thesis by simp
qed

section \<open>The gate and the reorder endpoint\<close>

text \<open>
  Claim C8. A request to a protected route that fails the auth check, and so every one
  without a \<open>Cookie\<close> header, is answered with status 401 and the body
  \<open>{code: 401, message: "Unauthorized"}\<close>, and the routing that calls the handlers is not
  run: the result is the same for every routing, the relational store is untouched, the
  key-value store has been read at most, and without a \<open>Cookie\<close> header the environment
  is unchanged.
\<close>

theorem gate_denies:
  assumes "isProtected (httpMethod request) (replaceFirst (pathname request) ''/api'' [])"
    and "\<not> fst (checkAuth request env)"
  shows "handleRequest routing request env =
           (errorResponse ''Unauthorized'' 401, snd (checkAuth request env))
    \<and> status (fst (handleRequest routing request env)) = 401
    \<and> content (fst (handleRequest routing request env)) =
        Stringified (JObj [(''code'', JNum 401), (''message'', JStr ''Unauthorized'')])
    \<and> NAV_DB (snd (handleRequest routing request env)) = NAV_DB env
    \<and> readsOnly (NAV_AUTH env) (NAV_AUTH (snd (handleRequest routing request env)))
    \<and> (headers request ''Cookie'' = None \<longrightarrow> snd (handleRequest routing request env) = env)"
proof -
  have eq: "handleRequest routing request env =
           (errorResponse ''Unauthorized'' 401, snd (checkAuth request env))"
    using assms by (cases "checkAuth request env") (simp add: handleRequest_def Let_def)
  have none: "headers request ''Cookie'' = None \<longrightarrow> snd (checkAuth request env) = env"
    by (simp add: checkAuth_def)
  from eq none checkAuth_readsOnly [where env = env and request = request]
  show ?thesis by (simp add: errorResponse_def)
qed

theorem gate_denies_witness:
  "handleRequest sampleRouting (sampleRequest ''PUT'' ''/api/config/42'' None (Inl [])) sampleEnv
     = (errorResponse ''Unauthorized'' 401, sampleEnv)
   \<and> snd (handleRequest sampleRouting (sampleRequest ''GET'' ''/api/config'' None (Inl [])) sampleEnv)
     \<noteq> sampleEnv"
proof -
  let ?r = "sampleRequest ''PUT'' ''/api/config/42'' None (Inl [])"
  have p: "isProtected (httpMethod ?r) (replaceFirst (pathname ?r) ''/api'' [])"
    by (simp add: sampleRequest_def startsWith_def isProtected_def protectedRoutes_def
          routeMatches_def splitOn_def numId_def bslash_def isDigit_def)
  have n: "headers ?r ''Cookie'' = None" by (simp add: sampleRequest_def)
  then have a: "\<not> fst (checkAuth ?r sampleEnv)" "snd (checkAuth ?r sampleEnv) = sampleEnv"
    by (simp_all add: checkAuth_def)
  have q: "\<not> isProtected ''GET'' (replaceFirst ''/api/config'' ''/api'' [])"
    by (simp add: startsWith_def isProtected_def protectedRoutes_def
          routeMatches_def splitOn_def numId_def bslash_def isDigit_def)
  have b: "snd (handleRequest sampleRouting (sampleRequest ''GET'' ''/api/config'' None (Inl [])) sampleEnv)
     \<noteq> sampleEnv"
  proof
    assume "snd (handleRequest sampleRouting (sampleRequest ''GET'' ''/api/config'' None (Inl [])) sampleEnv)
       = sampleEnv"
    then have "batches (NAV_DB (snd (handleRequest sampleRouting
        (sampleRequest ''GET'' ''/api/config'' None (Inl [])) sampleEnv))) = batches (NAV_DB sampleEnv)"
      by simp
    with q show False
      by (simp add: handleRequest_def sampleRouting_def sampleRequest_def sampleEnv_def
            startsWith_def Let_def)
  qed
  from gate_denies [OF p a(1), where routing = sampleRouting] n
  have "handleRequest sampleRouting ?r sampleEnv =
          (errorResponse ''Unauthorized'' 401, snd (checkAuth ?r sampleEnv))"
    and "snd (handleRequest sampleRouting ?r sampleEnv) = sampleEnv"
    by blast+
  with b show ?thesis by simp
qed

lemma reorderStatements_nth:
  "length (reorderStatements ids) = length ids"
  "k < length ids \<Longrightarrow> reorderStatements ids ! k = Stmt updateSortOrder [JNum (real k + 1), ids ! k]"
  by (simp_all add: reorderStatements_def nth_enumerate_eq)

lemma find_bindFails:
  "(\<forall>i\<in>set ids. fails i = None) \<Longrightarrow> firstBindFailure fails ids = None"
  by (induction ids) auto

text \<open>
  Claim C9. Given a body whose \<open>orderedIds\<close> is an array, the reorder endpoint hands the
  relational store one batch with one statement for each id of the list, in order, which
  sets \<open>sort_order\<close> of that id to its position counted from 1, and answers with code
  200 (the store accepting the values and the batch). A body, not \<open>null\<close>, whose
  \<open>orderedIds\<close> is no array is answered with status 400 and nothing is written.
\<close>

theorem reorder_positions:
  "(body request = Inr b \<and> b \<noteq> JNull \<and> getProp b ''orderedIds'' = Some (JArr orderedIds) \<and>
    (\<forall>i\<in>set orderedIds. bindFails (NAV_DB env) i = None) \<and>
    batchFails (NAV_DB env) (reorderStatements orderedIds) = None
      \<longrightarrow> status (fst (reorderConfig request env)) = 200 \<and>
          content (fst (reorderConfig request env)) =
            Stringified (JObj [(''code'', JNum 200), (''message'', JStr ''Reordered successfully'')]) \<and>
          batches (NAV_DB (snd (reorderConfig request env))) =
            batches (NAV_DB env) @ [reorderStatements orderedIds] \<and>
          length (reorderStatements orderedIds) = length orderedIds \<and>
          (\<forall>k < length orderedIds.
             reorderStatements orderedIds ! k =
               Stmt ''UPDATE sites SET sort_order = ? WHERE id = ?'' [JNum (real k + 1), orderedIds ! k]) \<and>
          NAV_AUTH (snd (reorderConfig request env)) = NAV_AUTH env)
   \<and> (body request = Inr b \<and> b \<noteq> JNull \<and> (\<forall>ids. getProp b ''orderedIds'' \<noteq> Some (JArr ids))
      \<longrightarrow> status (fst (reorderConfig request env)) = 400 \<and>
          content (fst (reorderConfig request env)) =
            Stringified (JObj [(''code'', JNum 400),
               (''message'', JStr ''Invalid data format, expected an array of IDs.'')]) \<and>
          snd (reorderConfig request env) = env)"
proof -
  have ok: "body request = Inr b \<and> b \<noteq> JNull \<and> getProp b ''orderedIds'' = Some (JArr orderedIds) \<and>
    (\<forall>i\<in>set orderedIds. bindFails (NAV_DB env) i = None) \<and>
    batchFails (NAV_DB env) (reorderStatements orderedIds) = None
      \<longrightarrow> status (fst (reorderConfig request env)) = 200 \<and>
          content (fst (reorderConfig request env)) =
            Stringified (JObj [(''code'', JNum 200), (''message'', JStr ''Reordered successfully'')]) \<and>
          batches (NAV_DB (snd (reorderConfig request env))) =
            batches (NAV_DB env) @ [reorderStatements orderedIds] \<and>
          NAV_AUTH (snd (reorderConfig request env)) = NAV_AUTH env"
    by (auto simp: reorderConfig_def dbBatch_def find_bindFails Let_def)
  have pos: "length (reorderStatements orderedIds) = length orderedIds \<and>
          (\<forall>k < length orderedIds.
             reorderStatements orderedIds ! k =
               Stmt ''UPDATE sites SET sort_order = ? WHERE id = ?'' [JNum (real k + 1), orderedIds ! k])"
    using reorderStatements_nth [where ids = orderedIds] by (simp add: updateSortOrder_def)
  have bad: "body request = Inr b \<and> b \<noteq> JNull \<and> (\<forall>ids. getProp b ''orderedIds'' \<noteq> Some (JArr ids))
      \<longrightarrow> status (fst (reorderConfig request env)) = 400 \<and>
          content (fst (reorderConfig request env)) =
            Stringified (JObj [(''code'', JNum 400),
               (''message'', JStr ''Invalid data format, expected an array of IDs.'')]) \<and>
          snd (reorderConfig request env) = env"
    by (auto simp: reorderConfig_def errorResponse_def split: option.splits json.splits)
  from ok pos bad show ?thesis by blast
qed

theorem reorder_positions_witness:
  "status (fst (reorderConfig (sampleRequest ''POST'' ''/api/config/reorder'' None
       (Inr (JObj [(''orderedIds'', JArr [JNum 7, JNum 3])]))) sampleEnv)) = 200
   \<and> batches (NAV_DB (snd (reorderConfig (sampleRequest ''POST'' ''/api/config/reorder'' None
       (Inr (JObj [(''orderedIds'', JArr [JNum 7, JNum 3])]))) sampleEnv)))
      = [[Stmt ''UPDATE sites SET sort_order = ? WHERE id = ?'' [JNum 1, JNum 7],
          Stmt ''UPDATE sites SET sort_order = ? WHERE id = ?'' [JNum 2, JNum 3]]]
   \<and> status (fst (reorderConfig (sampleRequest ''POST'' ''/api/config/reorder'' None
       (Inr (JObj [(''orderedIds'', JStr ''7,3'')]))) sampleEnv)) = 400
   \<and> snd (reorderConfig (sampleRequest ''POST'' ''/api/config/reorder'' None
       (Inr (JObj [(''orderedIds'', JStr ''7,3'')]))) sampleEnv) = sampleEnv"
proof -
  let ?ok = "JObj [(''orderedIds'', JArr [JNum 7, JNum 3])]"
  let ?bad = "JObj [(''orderedIds'', JStr ''7,3'')]"
  have st: "reorderStatements [JNum 7, JNum 3] =
      [Stmt ''UPDATE sites SET sort_order = ? WHERE id = ?'' [JNum 1, JNum 7],
       Stmt ''UPDATE sites SET sort_order = ? WHERE id = ?'' [JNum 2, JNum 3]]"
    by (simp add: reorderStatements_def updateSortOrder_def)
  from reorder_positions [where request = "sampleRequest ''POST'' ''/api/config/reorder'' None (Inr ?ok)"
      and b = ?ok and env = sampleEnv and orderedIds = "[JNum 7, JNum 3]"]
    reorder_positions [where request = "sampleRequest ''POST'' ''/api/config/reorder'' None (Inr ?bad)"
      and b = ?bad and env = sampleEnv]
  show ?thesis by (simp add: sample_defs st)
qed

section \<open>The notes worker checks no credentials\<close>















end
